theory Spec2Isabelle
  imports Main "HOL-Library.Char_ord" "HOL-Library.List_Lexorder" "HOL-Library.Multiset"
begin

section \<open>The parsed schema: declarations of the external parser\<close>

text \<open>
  The nodes of \<^verbatim>\<open>github.com/emicklei/proto\<close> that the header pass reads, with the
  fields it reads. A Go pointer that may be nil is an \<open>option\<close>. Go compares strings
  byte by byte, which is the lexicographic order of \<open>char list\<close> given by
  \<open>Char_ord\<close> and \<open>List_Lexorder\<close>.
\<close>

record Position =
  Line :: int
  Column :: int

record proto_Comment =
  Lines :: "string list"

record proto_Element =
  Position :: Position
  Comment :: "proto_Comment option"
  InlineComment :: "proto_Comment option"

record proto_Syntax = proto_Element +
  Value :: string

record proto_Package = proto_Element +
  Name :: string

record proto_Import = proto_Element +
  Filename :: string
  Kind :: string

record proto_Option = proto_Element +
  Name :: string
  Constant :: string

text \<open>One constructor for each \<^verbatim>\<open>Visit...\<close> method of the visitor.\<close>

datatype Visitee =
    VMessage
  | VService
  | VSyntax proto_Syntax
  | VPackage proto_Package
  | VOption proto_Option
  | VImport proto_Import
  | VNormalField
  | VEnumField
  | VEnum
  | VComment proto_Comment
  | VOneof
  | VOneofField
  | VReserved
  | VRPC
  | VMapField
  | VGroup
  | VExtensions

section \<open>The base renderer\<close>

text \<open>
  Modelled from the spec: \<^verbatim>\<open>text.Failure\<close> is not among the source files. Section 3: a
  diagnostic is a position and a message.
\<close>

record text_Failure =
  Failure_Position :: Position
  Message :: string

text \<open>
  Modelled from the spec: \<^verbatim>\<open>settings.Config\<close> is not among the source files. Section 6:
  the formatting configuration is the indent, the style of the statement terminator
  and the policy for the trailing newline.
\<close>

record settings_FormatConfig =
  Indent :: string
  RPCUseSemicolons :: bool
  TrimNewline :: bool

record settings_Config =
  Format :: settings_FormatConfig

text \<open>
  \<^verbatim>\<open>firstPassVisitor\<close>, with the state of the embedded \<^verbatim>\<open>baseVisitor\<close>: the indent
  string of its printer, the output buffer as the list of the lines emitted so far (a
  blank line is the empty string), and the accumulated failures.
\<close>

record firstPassVisitor =
  indent :: string
  buffer :: "string list"
  Failures :: "text_Failure list"
  Syntax :: "proto_Syntax option"
  Package :: "proto_Package option"
  Options :: "proto_Option list"
  ProbablyCustomOptions :: "proto_Option list"
  Imports :: "proto_Import list"
  WKTImports :: "proto_Import list"
  haveHitNonComment :: bool

text \<open>
  Modelled from the spec: the base renderer (\<^verbatim>\<open>baseVisitor\<close> and its printer) is not
  among the source files. Section 4.1: \<^verbatim>\<open>emitLine(parts...)\<close> emits one line made of its
  parts, and with no arguments a blank line. The header pass renders at indentation
  depth zero, where a line has no indent.
\<close>

definition P :: "string list \<Rightarrow> firstPassVisitor \<Rightarrow> firstPassVisitor" where
  "P parts v = v\<lparr>buffer := buffer v @ [concat parts]\<rparr>"

text \<open>
  Modelled from the spec: \<^verbatim>\<open>emitComment(comment?)\<close>. Section 4.1: comments render
  verbatim, line by line, with no re-wrapping; an absent comment renders nothing.
\<close>

definition PComment :: "proto_Comment option \<Rightarrow> firstPassVisitor \<Rightarrow> firstPassVisitor" where
  "PComment comment v =
     (case comment of
        None \<Rightarrow> v
      | Some c \<Rightarrow> foldl (\<lambda>w line. P [line] w) v (Lines c))"

text \<open>
  Modelled from the spec: \<^verbatim>\<open>emitWithInlineComment(inline?, parts...)\<close>. Section 4.1: an
  inline trailing comment, if present, is appended to the same output line as its
  declaration; otherwise the declaration occupies exactly one line.
\<close>

definition PWithInlineComment ::
  "proto_Comment option \<Rightarrow> string list \<Rightarrow> firstPassVisitor \<Rightarrow> firstPassVisitor" where
  "PWithInlineComment inlineComment parts v =
     (case inlineComment of
        None \<Rightarrow> P parts v
      | Some c \<Rightarrow> P (parts @ Lines c) v)"

text \<open>
  Modelled from the spec: \<^verbatim>\<open>emitOptionsBlock(multilineFlag, options...)\<close>. Section 4.3
  leaves the form of the block open (one per line or block form), so the lines it
  produces for a list of options are a parameter \<open>block\<close> of the model; like every
  primitive of the renderer it appends its lines to the buffer.
\<close>

type_synonym options_block = "bool \<Rightarrow> proto_Option list \<Rightarrow> string list"

definition POptions ::
  "options_block \<Rightarrow> bool \<Rightarrow> proto_Option list \<Rightarrow> firstPassVisitor \<Rightarrow> firstPassVisitor" where
  "POptions block isFieldOption options v = v\<lparr>buffer := buffer v @ block isFieldOption options\<rparr>"

text \<open>
  Modelled from the spec: \<^verbatim>\<open>recordDiagnostic(position, message)\<close> appends one diagnostic
  to the accumulator.
\<close>

definition AddFailure :: "Position \<Rightarrow> string \<Rightarrow> firstPassVisitor \<Rightarrow> firstPassVisitor" where
  "AddFailure position message v =
     v\<lparr>Failures := Failures v @ [\<lparr>Failure_Position = position, Message = message\<rparr>]\<rparr>"

section \<open>The header pass\<close>

text \<open>
  \<^verbatim>\<open>newFirstPassVisitor\<close>: the indent of the configuration goes to the base visitor,
  and every other field has Go's zero value.
\<close>

definition newFirstPassVisitor :: "settings_Config \<Rightarrow> firstPassVisitor" where
  "newFirstPassVisitor config =
     \<lparr>indent = Indent (Format config), buffer = [], Failures = [], Syntax = None,
      Package = None, Options = [], ProbablyCustomOptions = [], Imports = [],
      WKTImports = [], haveHitNonComment = False\<rparr>"

text \<open>\<^verbatim>\<open>strings.HasPrefix(option.Name, "(")\<close>.\<close>

definition isProbablyCustomOption :: "proto_Option \<Rightarrow> bool" where
  "isProbablyCustomOption option = (take 1 (proto_Option.Name option) = ''('')"

definition VisitSyntax :: "proto_Syntax \<Rightarrow> firstPassVisitor \<Rightarrow> firstPassVisitor" where
  "VisitSyntax element v0 =
     (let v = v0\<lparr>haveHitNonComment := True\<rparr>
      in if Syntax v \<noteq> None
         then AddFailure (Position element) ''duplicate syntax specified'' v
         else v\<lparr>Syntax := Some element\<rparr>)"

definition VisitPackage :: "proto_Package \<Rightarrow> firstPassVisitor \<Rightarrow> firstPassVisitor" where
  "VisitPackage element v0 =
     (let v = v0\<lparr>haveHitNonComment := True\<rparr>
      in if Package v \<noteq> None
         then AddFailure (Position element) ''duplicate package specified'' v
         else v\<lparr>Package := Some element\<rparr>)"

definition VisitOption :: "proto_Option \<Rightarrow> firstPassVisitor \<Rightarrow> firstPassVisitor" where
  "VisitOption element v0 =
     (let v = v0\<lparr>haveHitNonComment := True\<rparr>
      in if isProbablyCustomOption element
         then v\<lparr>ProbablyCustomOptions := ProbablyCustomOptions v @ [element]\<rparr>
         else v\<lparr>Options := Options v @ [element]\<rparr>)"

text \<open>
  \<^verbatim>\<open>wkt.FilenameMap\<close>, the registry of well-known types, is declared outside the source
  files: it is the parameter \<open>FilenameMap\<close>, a map from filenames to metadata.
\<close>

definition VisitImport ::
  "(string \<rightharpoonup> 'm) \<Rightarrow> proto_Import \<Rightarrow> firstPassVisitor \<Rightarrow> firstPassVisitor" where
  "VisitImport FilenameMap element v0 =
     (let v = v0\<lparr>haveHitNonComment := True\<rparr>
      in if FilenameMap (Filename element) \<noteq> None
         then v\<lparr>WKTImports := WKTImports v @ [element]\<rparr>
         else v\<lparr>Imports := Imports v @ [element]\<rparr>)"

definition VisitComment :: "proto_Comment \<Rightarrow> firstPassVisitor \<Rightarrow> firstPassVisitor" where
  "VisitComment element v =
     (if \<not> haveHitNonComment v then P [] (PComment (Some element) v) else v)"

text \<open>
  \<^verbatim>\<open>sort.Slice\<close> belongs to Go's standard library and is not among the source files.
  It is the parameter \<open>Slice\<close> of the model: from the slice and the \<^verbatim>\<open>less\<close> function
  it gives the slice as it is after the call. What the library promises is
  \<open>sort_Slice_contract\<close>: the slice keeps its elements, and it is in order whenever
  \<^verbatim>\<open>less\<close> describes a transitive ordering (\<^verbatim>\<open>less\<close> of an element and itself is false;
  if \<^verbatim>\<open>less\<close> holds of two pairs in a row it holds of the outer pair, and likewise if
  it fails of both). The sort is not promised to be stable, so the contract leaves open
  the order of two elements neither of which is less than the other.
\<close>

type_synonym sort_Slice =
  "proto_Import list \<Rightarrow> (proto_Import \<Rightarrow> proto_Import \<Rightarrow> bool) \<Rightarrow> proto_Import list"

definition transitiveOrdering :: "('a \<Rightarrow> 'a \<Rightarrow> bool) \<Rightarrow> bool" where
  "transitiveOrdering lessf =
     ((\<forall>a. \<not> lessf a a)
      \<and> (\<forall>a b c. lessf a b \<and> lessf b c \<longrightarrow> lessf a c)
      \<and> (\<forall>a b c. \<not> lessf a b \<and> \<not> lessf b c \<longrightarrow> \<not> lessf a c))"

definition sort_Slice_contract :: "sort_Slice \<Rightarrow> bool" where
  "sort_Slice_contract Slice =
     (\<forall>x lessf.
        mset (Slice x lessf) = mset x
        \<and> (transitiveOrdering lessf \<longrightarrow> sorted_wrt (\<lambda>a b. \<not> lessf b a) (Slice x lessf)))"

text \<open>
  \<^verbatim>\<open>PImports\<close>. The \<^verbatim>\<open>less\<close> of the source compares the filenames of the elements
  at two indices of the slice being sorted; here it compares the filenames of the two
  elements. The slice is sorted in place; nothing reads the visitor's field again after
  the call.
\<close>

definition PImports ::
  "sort_Slice \<Rightarrow> proto_Import list \<Rightarrow> firstPassVisitor \<Rightarrow> firstPassVisitor" where
  "PImports Slice imports v =
     (if length imports = 0 then v
      else foldl
             (\<lambda>w i. PWithInlineComment (InlineComment i)
                      [''import '' @ [CHR 0x22], Filename i, [CHR 0x22] @ '';'']
                      (PComment (Comment i) w))
             v (Slice imports (\<lambda>i j. Filename i < Filename j)))"

text \<open>
  \<^verbatim>\<open>Do\<close>. The visitor after each of the five \<^verbatim>\<open>if\<close> statements is \<open>v1\<close> to \<open>v4\<close>
  and the result; the failures it returns are the field \<open>Failures\<close> of the result.
\<close>

definition Do :: "sort_Slice \<Rightarrow> options_block \<Rightarrow> firstPassVisitor \<Rightarrow> firstPassVisitor" where
  "Do Slice block v0 =
     (let v1 = (case Syntax v0 of
                  None \<Rightarrow> v0
                | Some s \<Rightarrow>
                    let w1 = PComment (Comment s) v0;
                        w2 = (if Comment s \<noteq> None then P [] w1 else w1);
                        w3 = PWithInlineComment (InlineComment s)
                               [''syntax = '' @ [CHR 0x22], Value s, [CHR 0x22] @ '';''] w2
                    in P [] w3);
          v2 = (if length (WKTImports v1) > 0
                then P [] (PImports Slice (WKTImports v1) v1) else v1);
          v3 = (if length (Imports v2) > 0
                then P [] (PImports Slice (Imports v2) v2) else v2);
          v4 = (case Package v3 of
                  None \<Rightarrow> v3
                | Some p \<Rightarrow>
                    let w1 = PComment (Comment p) v3;
                        w2 = PWithInlineComment (InlineComment p)
                               [''package '', proto_Package.Name p, '';''] w1
                    in P [] w2)
      in if length (Options v4) > 0 \<or> length (ProbablyCustomOptions v4) > 0
         then P [] (POptions block False (ProbablyCustomOptions v4)
                      (POptions block False (Options v4) v4))
         else v4)"

text \<open>
  The dispatch of a declaration to its \<^verbatim>\<open>Visit...\<close> method. Every handler other than
  those of a syntax, a package, an option, an import and a comment only sets
  \<^verbatim>\<open>haveHitNonComment\<close>.
\<close>

fun Accept :: "(string \<rightharpoonup> 'm) \<Rightarrow> Visitee \<Rightarrow> firstPassVisitor \<Rightarrow> firstPassVisitor" where
  "Accept FilenameMap (VSyntax e) v = VisitSyntax e v"
| "Accept FilenameMap (VPackage e) v = VisitPackage e v"
| "Accept FilenameMap (VOption e) v = VisitOption e v"
| "Accept FilenameMap (VImport e) v = VisitImport FilenameMap e v"
| "Accept FilenameMap (VComment e) v = VisitComment e v"
| "Accept FilenameMap _ v = v\<lparr>haveHitNonComment := True\<rparr>"

text \<open>
  Modelled from the spec: the traversal is driven from outside the source files.
  Sections 4.2 and 4.3: the top-level declarations are visited strictly in document
  order by a fresh pass instance, then the pass renders and returns its diagnostics.
\<close>

definition visitAll ::
  "(string \<rightharpoonup> 'm) \<Rightarrow> Visitee list \<Rightarrow> firstPassVisitor \<Rightarrow> firstPassVisitor" where
  "visitAll FilenameMap doc v = foldl (\<lambda>w d. Accept FilenameMap d w) v doc"

definition firstPass ::
  "sort_Slice \<Rightarrow> options_block \<Rightarrow> (string \<rightharpoonup> 'm) \<Rightarrow> settings_Config \<Rightarrow> Visitee list
     \<Rightarrow> string list \<times> text_Failure list" where
  "firstPass Slice block FilenameMap config doc =
     (let v = Do Slice block (visitAll FilenameMap doc (newFirstPassVisitor config))
      in (buffer v, Failures v))"

section \<open>The configuration resolver\<close>

text \<open>
  Paths are Go strings. The functions of Go's \<^verbatim>\<open>path/filepath\<close> (standard library, on
  Unix, where the separator is \<open>/\<close> and there is no volume name) that the resolver
  calls: \<^verbatim>\<open>IsAbs\<close>, \<^verbatim>\<open>Clean\<close>, \<^verbatim>\<open>Dir\<close> and \<^verbatim>\<open>Join\<close>. \<^verbatim>\<open>Clean\<close> is given by
  its documented rules on the elements of the path: empty elements and \<open>.\<close> are
  dropped, \<open>..\<close> removes the element before it, or is dropped at the root of a rooted
  path, or is kept at the start of a relative path; the empty result is \<open>.\<close>.
\<close>

definition IsAbs :: "string \<Rightarrow> bool" where
  "IsAbs path = (take 1 path = ''/'')"

fun splitSep :: "string \<Rightarrow> string list" where
  "splitSep [] = [[]]"
| "splitSep (c # cs) =
     (if c = CHR ''/'' then [] # splitSep cs
      else (case splitSep cs of [] \<Rightarrow> [[c]] | x # xs \<Rightarrow> (c # x) # xs))"

fun joinSep :: "string list \<Rightarrow> string" where
  "joinSep [] = []"
| "joinSep [x] = x"
| "joinSep (x # y # ys) = x @ ''/'' @ joinSep (y # ys)"

definition cleanStep :: "bool \<Rightarrow> string list \<Rightarrow> string \<Rightarrow> string list" where
  "cleanStep rooted stack elem =
     (if elem = [] \<or> elem = ''.'' then stack
      else if elem = ''..''
        then (if stack \<noteq> [] \<and> last stack \<noteq> ''..'' then butlast stack
              else if rooted then stack
              else stack @ [''..''])
      else stack @ [elem])"

definition Clean :: "string \<Rightarrow> string" where
  "Clean path =
     (if path = [] then ''.''
      else let rooted = (take 1 path = ''/'');
               elems = foldl (cleanStep rooted) [] (splitSep path)
           in if rooted then ''/'' @ joinSep elems
              else if elems = [] then ''.''
              else joinSep elems)"

text \<open>\<^verbatim>\<open>Dir\<close>: everything up to and including the last separator, cleaned.\<close>

definition Dir :: "string \<Rightarrow> string" where
  "Dir path = Clean (rev (dropWhile (\<lambda>c. c \<noteq> CHR ''/'') (rev path)))"

text \<open>\<^verbatim>\<open>Join\<close> of two elements: empty elements are ignored, the rest is cleaned.\<close>

definition Join :: "string \<Rightarrow> string \<Rightarrow> string" where
  "Join a b =
     (if a \<noteq> [] then Clean (a @ ''/'' @ b)
      else if b \<noteq> [] then Clean b
      else [])"

text \<open>
  \<^verbatim>\<open>getFilePathForDir\<close>. \<^verbatim>\<open>os.Stat\<close> succeeding on a path is the predicate \<open>stat\<close>, the
  file system; \<^verbatim>\<open>DefaultConfigFilename\<close>, a constant declared outside the source files,
  is the parameter \<open>name\<close>. The loop has no bound of its own (on a relative path it
  never reaches \<open>/\<close>), so the function is partial: \<open>None\<close> is a loop that does not
  return. \<open>dirPaths\<close> is the slice built so far.
\<close>

partial_function (option) getFilePathForDir ::
  "(string \<Rightarrow> bool) \<Rightarrow> string \<Rightarrow> string \<Rightarrow> string list \<Rightarrow> (string \<times> string list) option" where
  "getFilePathForDir stat name dirPath dirPaths =
     (if stat (Join dirPath name) then Some (Join dirPath name, dirPaths @ [dirPath])
      else if dirPath = ''/'' then Some ([], dirPaths @ [dirPath])
      else getFilePathForDir stat name (Dir dirPath) (dirPaths @ [dirPath]))"

declare getFilePathForDir.simps [code]

text \<open>
  \<^verbatim>\<open>configProvider.GetFilePathForDir\<close>, run by one caller at a time: the state is the
  map \<^verbatim>\<open>dirPathToFilePath\<close>, and the second look at the map, under the write lock, finds
  what the first found. The result is the returned pair (an error or a path) and the
  new map.
\<close>

datatype error = NotAbsolute string

definition GetFilePathForDir ::
  "(string \<Rightarrow> bool) \<Rightarrow> string \<Rightarrow> string \<Rightarrow> (string \<rightharpoonup> string)
     \<Rightarrow> ((error + string) \<times> (string \<rightharpoonup> string)) option" where
  "GetFilePathForDir stat name dirPath0 dirPathToFilePath =
     (if \<not> IsAbs dirPath0 then Some (Inl (NotAbsolute dirPath0), dirPathToFilePath)
      else let dirPath = Clean dirPath0
           in case dirPathToFilePath dirPath of
                Some filePath \<Rightarrow> Some (Inr filePath, dirPathToFilePath)
              | None \<Rightarrow>
                  (case getFilePathForDir stat name dirPath [] of
                     None \<Rightarrow> None
                   | Some (getFilePath, dirPaths) \<Rightarrow>
                       if getFilePath = [] then Some (Inr [], dirPathToFilePath)
                       else Some (Inr getFilePath,
                                  foldl (\<lambda>m iDirPath.
                                           if m iDirPath = None then m(iDirPath \<mapsto> getFilePath)
                                           else m)
                                    dirPathToFilePath dirPaths)))"

text \<open>
  A cleaned absolute path, from its elements; and what an element of a cleaned path is.
\<close>

definition absPath :: "string list \<Rightarrow> string" where
  "absPath elems = CHR ''/'' # joinSep elems"

definition validElem :: "string \<Rightarrow> bool" where
  "validElem e = (e \<noteq> [] \<and> CHR ''/'' \<notin> set e \<and> e \<noteq> ''.'' \<and> e \<noteq> ''..'')"

section \<open>The rendered text, section by section\<close>

text \<open>
  The lines that the renderer's primitives append, as functions of the declaration
  they print. \<open>emit\<close> appends lines to the buffer and changes nothing else.
\<close>

definition emit :: "string list \<Rightarrow> firstPassVisitor \<Rightarrow> firstPassVisitor" where
  "emit ls v = v\<lparr>buffer := buffer v @ ls\<rparr>"

definition commentLines :: "proto_Comment option \<Rightarrow> string list" where
  "commentLines comment = (case comment of None \<Rightarrow> [] | Some c \<Rightarrow> Lines c)"

definition inlineText :: "proto_Comment option \<Rightarrow> string" where
  "inlineText comment = (case comment of None \<Rightarrow> [] | Some c \<Rightarrow> concat (Lines c))"

definition syntaxLine :: "proto_Syntax \<Rightarrow> string" where
  "syntaxLine s =
     ''syntax = '' @ [CHR 0x22] @ Value s @ [CHR 0x22] @ '';'' @ inlineText (InlineComment s)"

definition importLine :: "proto_Import \<Rightarrow> string" where
  "importLine i =
     ''import '' @ [CHR 0x22] @ Filename i @ [CHR 0x22] @ '';'' @ inlineText (InlineComment i)"

definition packageLine :: "proto_Package \<Rightarrow> string" where
  "packageLine p = ''package '' @ proto_Package.Name p @ '';'' @ inlineText (InlineComment p)"

definition importBlock :: "proto_Import \<Rightarrow> string list" where
  "importBlock i = commentLines (Comment i) @ [importLine i]"

text \<open>
  The five sections that \<^verbatim>\<open>Do\<close> renders. A section that is present ends with one
  blank line; the syntax section has one more blank line after the leading comment of
  the syntax declaration; a section of imports holds the imports in the order in which
  \<^verbatim>\<open>sort.Slice\<close> leaves them; the options section holds the plain options and then
  the custom options.
\<close>

definition syntaxSection :: "proto_Syntax option \<Rightarrow> string list" where
  "syntaxSection x =
     (case x of
        None \<Rightarrow> []
      | Some s \<Rightarrow> (case Comment s of None \<Rightarrow> [] | Some c \<Rightarrow> Lines c @ [[]])
                  @ [syntaxLine s, []])"

definition sortedImports :: "sort_Slice \<Rightarrow> proto_Import list \<Rightarrow> proto_Import list" where
  "sortedImports Slice imports = Slice imports (\<lambda>i j. Filename i < Filename j)"

definition importsSection :: "sort_Slice \<Rightarrow> proto_Import list \<Rightarrow> string list" where
  "importsSection Slice imports =
     (if imports = [] then []
      else concat (map importBlock (sortedImports Slice imports)) @ [[]])"

definition packageSection :: "proto_Package option \<Rightarrow> string list" where
  "packageSection x =
     (case x of
        None \<Rightarrow> []
      | Some p \<Rightarrow> commentLines (Comment p) @ [packageLine p, []])"

definition optionsSection ::
  "options_block \<Rightarrow> proto_Option list \<Rightarrow> proto_Option list \<Rightarrow> string list" where
  "optionsSection block plain custom =
     (if plain = [] \<and> custom = [] then []
      else block False plain @ block False custom @ [[]])"

section \<open>The declarations of a document, by kind\<close>

fun isComment :: "Visitee \<Rightarrow> bool" where
  "isComment (VComment c) = True"
| "isComment _ = False"

fun syntaxOf :: "Visitee \<Rightarrow> proto_Syntax list" where
  "syntaxOf (VSyntax e) = [e]"
| "syntaxOf _ = []"

fun packageOf :: "Visitee \<Rightarrow> proto_Package list" where
  "packageOf (VPackage e) = [e]"
| "packageOf _ = []"

fun optionOf :: "Visitee \<Rightarrow> proto_Option list" where
  "optionOf (VOption e) = [e]"
| "optionOf _ = []"

fun importOf :: "Visitee \<Rightarrow> proto_Import list" where
  "importOf (VImport e) = [e]"
| "importOf _ = []"

fun commentOf :: "Visitee \<Rightarrow> proto_Comment list" where
  "commentOf (VComment e) = [e]"
| "commentOf _ = []"

definition syntaxesOf :: "Visitee list \<Rightarrow> proto_Syntax list" where
  "syntaxesOf doc = concat (map syntaxOf doc)"

definition packagesOf :: "Visitee list \<Rightarrow> proto_Package list" where
  "packagesOf doc = concat (map packageOf doc)"

definition optionsOf :: "Visitee list \<Rightarrow> proto_Option list" where
  "optionsOf doc = concat (map optionOf doc)"

definition importsOf :: "Visitee list \<Rightarrow> proto_Import list" where
  "importsOf doc = concat (map importOf doc)"

definition commentsOf :: "Visitee list \<Rightarrow> proto_Comment list" where
  "commentsOf doc = concat (map commentOf doc)"

definition first :: "'a list \<Rightarrow> 'a option" where
  "first xs = (case xs of [] \<Rightarrow> None | x # _ \<Rightarrow> Some x)"

text \<open>
  The leading comments of a document are the comments before its first declaration
  that is not a comment; each is rendered with a blank line after it.
\<close>

definition headerComments :: "Visitee list \<Rightarrow> proto_Comment list" where
  "headerComments doc = commentsOf (takeWhile isComment doc)"

definition headerLines :: "Visitee list \<Rightarrow> string list" where
  "headerLines doc = concat (map (\<lambda>c. Lines c @ [[]]) (headerComments doc))"

definition wktImportsOf :: "(string \<rightharpoonup> 'm) \<Rightarrow> Visitee list \<Rightarrow> proto_Import list" where
  "wktImportsOf FilenameMap doc = filter (\<lambda>e. Filename e \<in> dom FilenameMap) (importsOf doc)"

definition regularImportsOf :: "(string \<rightharpoonup> 'm) \<Rightarrow> Visitee list \<Rightarrow> proto_Import list" where
  "regularImportsOf FilenameMap doc = filter (\<lambda>e. Filename e \<notin> dom FilenameMap) (importsOf doc)"

definition plainOptionsOf :: "Visitee list \<Rightarrow> proto_Option list" where
  "plainOptionsOf doc = filter (\<lambda>e. \<not> isProbablyCustomOption e) (optionsOf doc)"

definition customOptionsOf :: "Visitee list \<Rightarrow> proto_Option list" where
  "customOptionsOf doc = filter isProbablyCustomOption (optionsOf doc)"

text \<open>The text of the header pass, put together from the sections.\<close>

definition headerText ::
  "sort_Slice \<Rightarrow> options_block \<Rightarrow> (string \<rightharpoonup> 'm) \<Rightarrow> Visitee list \<Rightarrow> string list" where
  "headerText Slice block FilenameMap doc =
     headerLines doc
     @ syntaxSection (first (syntaxesOf doc))
     @ importsSection Slice (wktImportsOf FilenameMap doc)
     @ importsSection Slice (regularImportsOf FilenameMap doc)
     @ packageSection (first (packagesOf doc))
     @ optionsSection block (plainOptionsOf doc) (customOptionsOf doc)"

section \<open>The claims as the specification words them, and example documents\<close>

text \<open>
  The specification's reading of the render order: seven sections, plain options and
  custom options being two of them, each non-empty section followed by one blank line.
\<close>

definition withBlank :: "string list \<Rightarrow> string list" where
  "withBlank ls = (if ls = [] then [] else ls @ [[]])"

definition claimedHeaderText ::
  "sort_Slice \<Rightarrow> options_block \<Rightarrow> (string \<rightharpoonup> 'm) \<Rightarrow> Visitee list \<Rightarrow> string list" where
  "claimedHeaderText Slice block FilenameMap doc =
     headerLines doc
     @ syntaxSection (first (syntaxesOf doc))
     @ importsSection Slice (wktImportsOf FilenameMap doc)
     @ importsSection Slice (regularImportsOf FilenameMap doc)
     @ packageSection (first (packagesOf doc))
     @ withBlank (block False (plainOptionsOf doc))
     @ withBlank (block False (customOptionsOf doc))"

text \<open>
  Modelled from the spec: the one-per-line form of the options block, one of the two
  forms that section 4.3 allows. It emits no blank line (section 4.1: blank lines are
  emitted explicitly by the pass, never by a primitive).
\<close>

definition onePerLine :: options_block where
  "onePerLine isFieldOption options =
     map (\<lambda>e. ''option '' @ proto_Option.Name e @ '' = '' @ Constant e @ '';'') options"

text \<open>
  Two sorts within the contract of \<^verbatim>\<open>sort.Slice\<close>: the insertion sort, which keeps two
  elements neither of which is less than the other in the order they had, and the
  insertion sort of the reversed slice, which reverses them.
\<close>

fun insertBy :: "('a \<Rightarrow> 'a \<Rightarrow> bool) \<Rightarrow> 'a \<Rightarrow> 'a list \<Rightarrow> 'a list" where
  "insertBy lessf x [] = [x]"
| "insertBy lessf x (y # ys) = (if lessf y x then y # insertBy lessf x ys else x # y # ys)"

definition insertionSlice :: sort_Slice where
  "insertionSlice x lessf = foldr (insertBy lessf) x []"

definition reversingSlice :: sort_Slice where
  "reversingSlice x lessf = foldr (insertBy lessf) (rev x) []"

definition exampleRegistry :: "string \<rightharpoonup> unit" where
  "exampleRegistry =
     [''google/protobuf/any.proto'' \<mapsto> (), ''google/protobuf/timestamp.proto'' \<mapsto> ()]"

definition exampleConfig :: settings_Config where
  "exampleConfig =
     \<lparr>Format = \<lparr>Indent = ''  '', RPCUseSemicolons = False, TrimNewline = False\<rparr>\<rparr>"

definition at :: "int \<Rightarrow> int \<Rightarrow> Position" where
  "at l c = \<lparr>Line = l, Column = c\<rparr>"

definition plainOption :: proto_Option where
  "plainOption = \<lparr>Position = at 3 1, Comment = None, InlineComment = None,
                  Name = ''go_package'', Constant = ''foopb''\<rparr>"

definition customOption :: proto_Option where
  "customOption = \<lparr>Position = at 4 1, Comment = None, InlineComment = None,
                   Name = ''(foo.bar).baz'', Constant = ''true''\<rparr>"

definition dottedOption :: proto_Option where
  "dottedOption = \<lparr>Position = at 5 1, Comment = None, InlineComment = None,
                   Name = ''google.protobuf.java_package'', Constant = ''com.foo''\<rparr>"

text \<open>
  The document with every Syntax and every Package beyond the first deleted, and the
  diagnostic that an extra declaration gets.
\<close>

fun dropExtras :: "bool \<Rightarrow> bool \<Rightarrow> Visitee list \<Rightarrow> Visitee list" where
  "dropExtras seenSyntax seenPackage [] = []"
| "dropExtras seenSyntax seenPackage (VSyntax e # ds) =
     (if seenSyntax then [] else [VSyntax e]) @ dropExtras True seenPackage ds"
| "dropExtras seenSyntax seenPackage (VPackage e # ds) =
     (if seenPackage then [] else [VPackage e]) @ dropExtras seenSyntax True ds"
| "dropExtras seenSyntax seenPackage (d # ds) = d # dropExtras seenSyntax seenPackage ds"

definition syntaxFailure :: "proto_Syntax \<Rightarrow> text_Failure" where
  "syntaxFailure e = \<lparr>Failure_Position = Position e, Message = ''duplicate syntax specified''\<rparr>"

definition packageFailure :: "proto_Package \<Rightarrow> text_Failure" where
  "packageFailure e = \<lparr>Failure_Position = Position e, Message = ''duplicate package specified''\<rparr>"

definition syntaxAt :: "int \<Rightarrow> string \<Rightarrow> proto_Syntax" where
  "syntaxAt l v = \<lparr>Position = at l 1, Comment = None, InlineComment = None, Value = v\<rparr>"

definition packageAt :: "int \<Rightarrow> string \<Rightarrow> proto_Package" where
  "packageAt l n = \<lparr>Position = at l 1, Comment = None, InlineComment = None, proto_Package.Name = n\<rparr>"

definition duplicatesDoc :: "Visitee list" where
  "duplicatesDoc =
     [VSyntax (syntaxAt 1 ''proto3''), VPackage (packageAt 2 ''x.y''),
      VSyntax (syntaxAt 3 ''proto2''), VMessage, VPackage (packageAt 5 ''z''),
      VSyntax (syntaxAt 6 ''proto3'')]"

text \<open>
  The specification's reading of a document with a single syntax declaration and of a
  document of comments only: the comment block, with no blank line after it.
\<close>

definition claimedSingleSyntaxText :: "Visitee list \<Rightarrow> proto_Syntax \<Rightarrow> string list" where
  "claimedSingleSyntaxText doc s =
     concat (map Lines (headerComments doc)) @ commentLines (Comment s) @ [syntaxLine s, []]"

definition claimedCommentOnlyText :: "Visitee list \<Rightarrow> string list" where
  "claimedCommentOnlyText doc = concat (map Lines (headerComments doc))"

definition headerComment :: proto_Comment where
  "headerComment = \<lparr>Lines = [''// header'']\<rparr>"

definition laterComment :: proto_Comment where
  "laterComment = \<lparr>Lines = [''// later'']\<rparr>"

definition importAt :: "int \<Rightarrow> string \<Rightarrow> proto_Import" where
  "importAt l f = \<lparr>Position = at l 1, Comment = None, InlineComment = None, Filename = f,
                   Kind = []\<rparr>"

definition optionNamed :: "string \<Rightarrow> proto_Option" where
  "optionNamed n = \<lparr>Position = at 1 1, Comment = None, InlineComment = None,
                    Name = n, Constant = ''1''\<rparr>"

definition optionsDoc :: "Visitee list" where
  "optionsDoc =
     [VOption (optionNamed ''(z.last)''), VOption (optionNamed ''java_package''),
      VOption (optionNamed ''(a.first)''), VOption (optionNamed ''go_package'')]"

definition importsDoc :: "Visitee list" where
  "importsDoc =
     [VComment headerComment, VSyntax (syntaxAt 2 ''proto3''),
      VImport (importAt 3 ''b.proto''), VImport (importAt 4 ''google/protobuf/timestamp.proto''),
      VImport (importAt 5 ''a.proto''), VImport (importAt 6 ''google/protobuf/any.proto''),
      VPackage (packageAt 7 ''x.y'')]"

definition importsDocPermuted :: "Visitee list" where
  "importsDocPermuted =
     [VComment headerComment, VSyntax (syntaxAt 2 ''proto3''),
      VImport (importAt 6 ''google/protobuf/any.proto''), VImport (importAt 5 ''a.proto''),
      VImport (importAt 4 ''google/protobuf/timestamp.proto''), VImport (importAt 3 ''b.proto''),
      VPackage (packageAt 7 ''x.y'')]"

definition commentedDoc :: "Visitee list" where
  "commentedDoc =
     [VSyntax ((syntaxAt 2 ''proto3'')\<lparr>Comment := Some \<lparr>Lines = [''// the syntax'']\<rparr>\<rparr>),
      VImport ((importAt 4 ''a.proto'')\<lparr>Comment := Some \<lparr>Lines = [''// the import'']\<rparr>\<rparr>),
      VPackage ((packageAt 6 ''x.y'')\<lparr>Comment := Some \<lparr>Lines = [''// the package'']\<rparr>\<rparr>)]"

text \<open>A file system with one configuration file.\<close>

definition exampleFiles :: "string \<Rightarrow> bool" where
  "exampleFiles p = (p = ''/a/prototool.yaml'')"

text \<open>A document with every kind of header declaration, out of order.\<close>

definition fullHeaderDoc :: "Visitee list" where
  "fullHeaderDoc = importsDoc @ [VOption customOption, VMessage, VOption plainOption]"

section \<open>Lemmas: the primitives append to the buffer\<close>

lemma emit_Nil: "emit [] v = v"
  by (simp add: emit_def)

lemma emit_emit: "emit ls (emit ms v) = emit (ms @ ls) v"
  by (simp add: emit_def)

lemma emit_fields:
  "buffer (emit ls v) = buffer v @ ls"
  "Failures (emit ls v) = Failures v"
  "Syntax (emit ls v) = Syntax v"
  "Package (emit ls v) = Package v"
  "Options (emit ls v) = Options v"
  "ProbablyCustomOptions (emit ls v) = ProbablyCustomOptions v"
  "Imports (emit ls v) = Imports v"
  "WKTImports (emit ls v) = WKTImports v"
  "haveHitNonComment (emit ls v) = haveHitNonComment v"
  by (simp_all add: emit_def)

lemma P_emit: "P parts v = emit [concat parts] v"
  by (simp add: P_def emit_def)

lemma foldl_emit:
  assumes "\<And>w x. f w x = emit (g x) w"
  shows "foldl f v xs = emit (concat (map g xs)) v"
  by (induction xs arbitrary: v) (simp_all add: assms emit_Nil emit_emit)

lemma PComment_emit: "PComment c v = emit (commentLines c) v"
proof (cases c)
  case None
  then show ?thesis by (simp add: PComment_def commentLines_def emit_Nil)
next
  case (Some x)
  have "foldl (\<lambda>w line. P [line] w) v (Lines x) = emit (concat (map (\<lambda>l. [l]) (Lines x))) v"
    by (rule foldl_emit) (simp add: P_emit)
  with Some show ?thesis by (simp add: PComment_def commentLines_def)
qed

lemma PWithInlineComment_emit:
  "PWithInlineComment c parts v = emit [concat parts @ inlineText c] v"
  by (cases c) (simp_all add: PWithInlineComment_def inlineText_def P_emit)

lemma PImports_emit:
  "PImports Slice imports v
     = emit (if imports = [] then [] else concat (map importBlock (sortedImports Slice imports))) v"
proof (cases "imports = []")
  case True
  then show ?thesis by (simp add: PImports_def emit_Nil)
next
  case False
  have "foldl (\<lambda>w i. PWithInlineComment (InlineComment i)
                      [''import '' @ [CHR 0x22], Filename i, [CHR 0x22] @ '';'']
                      (PComment (Comment i) w)) v (sortedImports Slice imports)
        = emit (concat (map importBlock (sortedImports Slice imports))) v"
    by (rule foldl_emit)
       (simp add: PComment_emit PWithInlineComment_emit emit_emit importBlock_def importLine_def)
  with False show ?thesis by (simp add: PImports_def sortedImports_def)
qed

lemma POptions_emit: "POptions block b opts v = emit (block b opts) v"
  by (simp add: POptions_def emit_def)

lemmas emit_simps = P_emit PComment_emit PWithInlineComment_emit PImports_emit POptions_emit
  emit_emit emit_fields

lemma Do_emit:
  "Do Slice block v =
     emit (syntaxSection (Syntax v) @ importsSection Slice (WKTImports v)
       @ importsSection Slice (Imports v) @ packageSection (Package v)
       @ optionsSection block (Options v) (ProbablyCustomOptions v)) v"
proof -
  let ?v1 = "emit (syntaxSection (Syntax v)) v"
  let ?v2 = "emit (importsSection Slice (WKTImports v)) ?v1"
  let ?v3 = "emit (importsSection Slice (Imports v)) ?v2"
  let ?v4 = "emit (packageSection (Package v)) ?v3"
  have s1: "(case Syntax v of
                  None \<Rightarrow> v
                | Some s \<Rightarrow>
                    let w1 = PComment (Comment s) v;
                        w2 = (if Comment s \<noteq> None then P [] w1 else w1);
                        w3 = PWithInlineComment (InlineComment s)
                               [''syntax = '' @ [CHR 0x22], Value s, [CHR 0x22] @ '';''] w2
                    in P [] w3) = ?v1"
    by (cases "Syntax v")
       (auto simp add: emit_simps emit_Nil Let_def syntaxSection_def syntaxLine_def
          commentLines_def)
  have s2: "(if length (WKTImports ?v1) > 0
             then P [] (PImports Slice (WKTImports ?v1) ?v1) else ?v1) = ?v2"
    by (simp add: emit_simps emit_Nil importsSection_def)
  have s3: "(if length (Imports ?v2) > 0
             then P [] (PImports Slice (Imports ?v2) ?v2) else ?v2) = ?v3"
    by (simp add: emit_simps emit_Nil importsSection_def)
  have s4: "(case Package ?v3 of
                  None \<Rightarrow> ?v3
                | Some p \<Rightarrow>
                    let w1 = PComment (Comment p) ?v3;
                        w2 = PWithInlineComment (InlineComment p)
                               [''package '', proto_Package.Name p, '';''] w1
                    in P [] w2) = ?v4"
    by (cases "Package v")
       (simp_all add: emit_simps emit_Nil Let_def packageSection_def packageLine_def)
  have s5: "(if length (Options ?v4) > 0 \<or> length (ProbablyCustomOptions ?v4) > 0
         then P [] (POptions block False (ProbablyCustomOptions ?v4)
                      (POptions block False (Options ?v4) ?v4))
         else ?v4) = emit (optionsSection block (Options v) (ProbablyCustomOptions v)) ?v4"
    by (simp add: emit_simps emit_Nil optionsSection_def)
  have "Do Slice block v = emit (optionsSection block (Options v) (ProbablyCustomOptions v)) ?v4"
    unfolding Do_def Let_def s1[unfolded Let_def] s2 s3 s4[unfolded Let_def] s5 ..
  then show ?thesis by (simp add: emit_emit)
qed

section \<open>Lemmas: the state after the traversal\<close>

lemma visitAll_snoc:
  "visitAll FilenameMap (doc @ [d]) v = Accept FilenameMap d (visitAll FilenameMap doc v)"
  by (simp add: visitAll_def)

lemma visitAll_Nil: "visitAll FilenameMap [] v = v"
  by (simp add: visitAll_def)

lemma visitAll_Cons:
  "visitAll FilenameMap (d # doc) v = visitAll FilenameMap doc (Accept FilenameMap d v)"
  by (simp add: visitAll_def)

lemmas visit_defs = VisitSyntax_def VisitPackage_def VisitOption_def VisitImport_def
  VisitComment_def AddFailure_def P_emit PComment_emit emit_emit emit_fields Let_def

lemma first_append:
  "first (xs @ ys) = (case first xs of None \<Rightarrow> first ys | Some y \<Rightarrow> Some y)"
  by (cases xs) (simp_all add: first_def)

lemma first_None: "(first xs = None) = (xs = [])"
  by (cases xs) (simp_all add: first_def)

lemma Accept_Syntax:
  "Syntax (Accept FilenameMap d v)
     = (case Syntax v of None \<Rightarrow> first (syntaxOf d) | Some s \<Rightarrow> Some s)"
  by (cases d) (simp_all add: visit_defs first_def split: option.splits)

lemma Accept_Package:
  "Package (Accept FilenameMap d v)
     = (case Package v of None \<Rightarrow> first (packageOf d) | Some s \<Rightarrow> Some s)"
  by (cases d) (simp_all add: visit_defs first_def split: option.splits)

lemma Accept_Options:
  "Options (Accept FilenameMap d v)
     = Options v @ filter (\<lambda>e. \<not> isProbablyCustomOption e) (optionOf d)"
  by (cases d) (simp_all add: visit_defs)

lemma Accept_ProbablyCustomOptions:
  "ProbablyCustomOptions (Accept FilenameMap d v)
     = ProbablyCustomOptions v @ filter isProbablyCustomOption (optionOf d)"
  by (cases d) (simp_all add: visit_defs)

lemma Accept_WKTImports:
  "WKTImports (Accept FilenameMap d v)
     = WKTImports v @ filter (\<lambda>e. Filename e \<in> dom FilenameMap) (importOf d)"
  by (cases d) (simp_all add: visit_defs domIff)

lemma Accept_Imports:
  "Imports (Accept FilenameMap d v)
     = Imports v @ filter (\<lambda>e. Filename e \<notin> dom FilenameMap) (importOf d)"
  by (cases d) (simp_all add: visit_defs domIff)

lemma Accept_haveHitNonComment:
  "haveHitNonComment (Accept FilenameMap d v) = (haveHitNonComment v \<or> \<not> isComment d)"
  by (cases d) (simp_all add: visit_defs)

lemma Accept_buffer:
  "buffer (Accept FilenameMap d v)
     = buffer v @ (if haveHitNonComment v then []
                   else concat (map (\<lambda>c. Lines c @ [[]]) (commentOf d)))"
  by (cases d) (simp_all add: visit_defs commentLines_def)

lemma Accept_Failures:
  "Failures (Accept FilenameMap d v)
     = Failures v
       @ (if Syntax v = None then []
          else map (\<lambda>e. \<lparr>Failure_Position = Position e,
                         Message = ''duplicate syntax specified''\<rparr>) (syntaxOf d))
       @ (if Package v = None then []
          else map (\<lambda>e. \<lparr>Failure_Position = Position e,
                         Message = ''duplicate package specified''\<rparr>) (packageOf d))"
  by (cases d) (simp_all add: visit_defs)

lemma visitAll_Syntax:
  "Syntax (visitAll FilenameMap doc (newFirstPassVisitor config)) = first (syntaxesOf doc)"
  by (induction doc rule: rev_induct)
     (simp_all add: visitAll_Nil visitAll_snoc Accept_Syntax newFirstPassVisitor_def
        syntaxesOf_def first_append, simp add: first_def)

lemma visitAll_Package:
  "Package (visitAll FilenameMap doc (newFirstPassVisitor config)) = first (packagesOf doc)"
  by (induction doc rule: rev_induct)
     (simp_all add: visitAll_Nil visitAll_snoc Accept_Package newFirstPassVisitor_def
        packagesOf_def first_append, simp add: first_def)

lemma visitAll_Options:
  "Options (visitAll FilenameMap doc (newFirstPassVisitor config)) = plainOptionsOf doc"
  by (induction doc rule: rev_induct)
     (simp_all add: visitAll_Nil visitAll_snoc Accept_Options newFirstPassVisitor_def
        optionsOf_def plainOptionsOf_def)

lemma visitAll_ProbablyCustomOptions:
  "ProbablyCustomOptions (visitAll FilenameMap doc (newFirstPassVisitor config))
     = customOptionsOf doc"
  by (induction doc rule: rev_induct)
     (simp_all add: visitAll_Nil visitAll_snoc Accept_ProbablyCustomOptions
        newFirstPassVisitor_def optionsOf_def customOptionsOf_def)

lemma visitAll_WKTImports:
  "WKTImports (visitAll FilenameMap doc (newFirstPassVisitor config))
     = wktImportsOf FilenameMap doc"
  by (induction doc rule: rev_induct)
     (simp_all add: visitAll_Nil visitAll_snoc Accept_WKTImports newFirstPassVisitor_def
        importsOf_def wktImportsOf_def)

lemma visitAll_Imports:
  "Imports (visitAll FilenameMap doc (newFirstPassVisitor config))
     = regularImportsOf FilenameMap doc"
  by (induction doc rule: rev_induct)
     (simp_all add: visitAll_Nil visitAll_snoc Accept_Imports newFirstPassVisitor_def
        importsOf_def regularImportsOf_def)

lemma visitAll_haveHitNonComment:
  "haveHitNonComment (visitAll FilenameMap doc (newFirstPassVisitor config))
     = (\<not> list_all isComment doc)"
  by (induction doc rule: rev_induct)
     (simp_all add: visitAll_Nil visitAll_snoc Accept_haveHitNonComment
        newFirstPassVisitor_def)

lemma takeWhile_all: "list_all Q xs \<Longrightarrow> takeWhile Q xs = xs"
  by (induction xs) simp_all

lemma takeWhile_snoc:
  "takeWhile Q (xs @ [x]) = (if list_all Q xs \<and> Q x then xs @ [x] else takeWhile Q xs)"
  by (induction xs) simp_all

lemma commentOf_not: "\<not> isComment d \<Longrightarrow> commentOf d = []"
  by (cases d) simp_all

lemma visitAll_buffer:
  "buffer (visitAll FilenameMap doc (newFirstPassVisitor config)) = headerLines doc"
proof (induction doc rule: rev_induct)
  case Nil
  show ?case
    by (simp add: visitAll_Nil newFirstPassVisitor_def headerLines_def headerComments_def
          commentsOf_def)
next
  case (snoc d doc)
  then show ?case
    by (simp add: visitAll_snoc Accept_buffer visitAll_haveHitNonComment headerLines_def
          headerComments_def commentsOf_def takeWhile_snoc takeWhile_all commentOf_not)
qed

lemma firstPass_text: "fst (firstPass Slice block FilenameMap config doc) = headerText Slice block FilenameMap doc"
  by (simp add: firstPass_def Let_def Do_emit emit_fields visitAll_buffer visitAll_Syntax
        visitAll_Package visitAll_Options visitAll_ProbablyCustomOptions visitAll_WKTImports
        visitAll_Imports headerText_def)

lemma firstPass_failures:
  "snd (firstPass Slice block FilenameMap config doc)
     = Failures (visitAll FilenameMap doc (newFirstPassVisitor config))"
  by (simp add: firstPass_def Let_def Do_emit emit_fields)

section \<open>Lemmas: what the contract of the sort gives\<close>

lemma lessFilename_ordering: "transitiveOrdering (\<lambda>i j. Filename i < Filename j)"
  by (auto simp add: transitiveOrdering_def)

lemma sortedImports_mset:
  "sort_Slice_contract Slice \<Longrightarrow> mset (sortedImports Slice x) = mset x"
  by (simp add: sort_Slice_contract_def sortedImports_def)

lemma sortedImports_set:
  "sort_Slice_contract Slice \<Longrightarrow> set (sortedImports Slice x) = set x"
  using sortedImports_mset [of Slice x] by (rule mset_eq_setD)

lemma sortedImports_sorted:
  assumes "sort_Slice_contract Slice"
  shows "sorted (map Filename (sortedImports Slice x))"
proof -
  have "sorted_wrt (\<lambda>a b. \<not> Filename b < Filename a) (sortedImports Slice x)"
    using assms lessFilename_ordering unfolding sort_Slice_contract_def sortedImports_def
    by blast
  then show ?thesis by (simp add: sorted_map not_less)
qed

lemma sortedImports_filenames:
  assumes "sort_Slice_contract Slice"
  shows "map Filename (sortedImports Slice x) = sort (map Filename x)"
proof -
  have "mset (map Filename (sortedImports Slice x)) = mset (map Filename x)"
    using sortedImports_mset [OF assms, of x] by simp
  then have "sort (map Filename x) = map Filename (sortedImports Slice x)"
    using sortedImports_sorted [OF assms, of x] by (rule properties_for_sort)
  then show ?thesis by simp
qed

lemma sortedImports_permuted:
  assumes "sort_Slice_contract Slice" and "mset xs = mset ys"
  shows "map Filename (sortedImports Slice (filter Q xs))
           = map Filename (sortedImports Slice (filter Q ys))"
proof -
  have "mset (map Filename (filter Q xs)) = mset (map Filename (filter Q ys))"
    using assms(2) by simp
  then have "sort (map Filename (filter Q xs)) = sort (map Filename (filter Q ys))"
    by (intro properties_for_sort) simp_all
  then show ?thesis by (simp add: sortedImports_filenames [OF assms(1)])
qed

lemma insertBy_mset: "mset (insertBy lessf x ys) = add_mset x (mset ys)"
  by (induction ys) simp_all

lemma insertBy_set: "set (insertBy lessf x ys) = insert x (set ys)"
  by (induction ys) auto

lemma insertBy_sorted:
  assumes "transitiveOrdering lessf" and "sorted_wrt (\<lambda>a b. \<not> lessf b a) ys"
  shows "sorted_wrt (\<lambda>a b. \<not> lessf b a) (insertBy lessf x ys)"
  using assms(2)
proof (induction ys)
  case Nil
  show ?case by simp
next
  case (Cons y ys)
  have asym: "\<And>a b. lessf a b \<Longrightarrow> \<not> lessf b a"
    using assms(1) unfolding transitiveOrdering_def by blast
  have neg: "\<And>a b c. \<not> lessf a b \<Longrightarrow> \<not> lessf b c \<Longrightarrow> \<not> lessf a c"
    using assms(1) unfolding transitiveOrdering_def by blast
  show ?case
  proof (cases "lessf y x")
    case True
    then have "\<not> lessf x y" by (rule asym)
    with True Cons show ?thesis by (auto simp add: insertBy_set)
  next
    case False
    then have "\<forall>z \<in> set ys. \<not> lessf z x"
      using Cons.prems neg by auto
    with False Cons.prems show ?thesis by simp
  qed
qed

lemma foldr_insertBy_mset: "mset (foldr (insertBy lessf) x []) = mset x"
  by (induction x) (simp_all add: insertBy_mset)

lemma foldr_insertBy_sorted:
  "transitiveOrdering lessf \<Longrightarrow> sorted_wrt (\<lambda>a b. \<not> lessf b a) (foldr (insertBy lessf) x [])"
  by (induction x) (simp_all add: insertBy_sorted)

lemma insertionSlice_contract: "sort_Slice_contract insertionSlice"
  by (simp add: sort_Slice_contract_def insertionSlice_def foldr_insertBy_mset
        foldr_insertBy_sorted)

lemma reversingSlice_contract: "sort_Slice_contract reversingSlice"
proof -
  have "mset (foldr (insertBy lessf) (rev x) []) = mset x" for lessf and x :: "proto_Import list"
    using foldr_insertBy_mset [of lessf "rev x"] by simp
  then show ?thesis
    by (simp add: sort_Slice_contract_def reversingSlice_def foldr_insertBy_sorted)
qed

section \<open>The render order of the header (C1)\<close>

text \<open>
  C1, as amended. For every document the text of the header pass is, in this order:
  each leading comment followed by one blank line, the syntax section, the imports of
  well-known types, the regular imports, the package section, and one options section
  in which the plain options are followed at once by the custom options. Every section
  that is present ends with exactly one blank line, and a section that is absent
  contributes nothing.
\<close>

theorem header_sections_in_order:
  "fst (firstPass Slice block FilenameMap config doc) =
     concat (map (\<lambda>c. Lines c @ ['''']) (headerComments doc))
     @ syntaxSection (first (syntaxesOf doc))
     @ importsSection Slice (wktImportsOf FilenameMap doc)
     @ importsSection Slice (regularImportsOf FilenameMap doc)
     @ packageSection (first (packagesOf doc))
     @ (if plainOptionsOf doc = [] \<and> customOptionsOf doc = [] then []
        else block False (plainOptionsOf doc) @ block False (customOptionsOf doc) @ [''''])"
proof -
  have "fst (firstPass Slice block FilenameMap config doc) = headerText Slice block FilenameMap doc"
    by (rule firstPass_text)
  then show ?thesis
    by (simp add: headerText_def headerLines_def optionsSection_def)
qed

text \<open>
  The header of a document with every kind of header declaration, out of order and with
  a message in between, rendered section by section.
\<close>

theorem header_sections_in_order_witness:
  "fst (firstPass insertionSlice onePerLine exampleRegistry exampleConfig fullHeaderDoc)
     = [''// header'', '''',
        ''syntax = '' @ [CHR 0x22] @ ''proto3'' @ [CHR 0x22] @ '';'', '''',
        ''import '' @ [CHR 0x22] @ ''google/protobuf/any.proto'' @ [CHR 0x22] @ '';'',
        ''import '' @ [CHR 0x22] @ ''google/protobuf/timestamp.proto'' @ [CHR 0x22] @ '';'', '''',
        ''import '' @ [CHR 0x22] @ ''a.proto'' @ [CHR 0x22] @ '';'',
        ''import '' @ [CHR 0x22] @ ''b.proto'' @ [CHR 0x22] @ '';'', '''',
        ''package x.y;'', '''',
        ''option go_package = foopb;'', ''option (foo.bar).baz = true;'', '''']"
proof -
  have "concat (map (\<lambda>c. Lines c @ ['''']) (headerComments fullHeaderDoc))
     @ syntaxSection (first (syntaxesOf fullHeaderDoc))
     @ importsSection insertionSlice (wktImportsOf exampleRegistry fullHeaderDoc)
     @ importsSection insertionSlice (regularImportsOf exampleRegistry fullHeaderDoc)
     @ packageSection (first (packagesOf fullHeaderDoc))
     @ (if plainOptionsOf fullHeaderDoc = [] \<and> customOptionsOf fullHeaderDoc = [] then []
        else onePerLine False (plainOptionsOf fullHeaderDoc)
             @ onePerLine False (customOptionsOf fullHeaderDoc) @ [''''])
     = [''// header'', '''',
        ''syntax = '' @ [CHR 0x22] @ ''proto3'' @ [CHR 0x22] @ '';'', '''',
        ''import '' @ [CHR 0x22] @ ''google/protobuf/any.proto'' @ [CHR 0x22] @ '';'',
        ''import '' @ [CHR 0x22] @ ''google/protobuf/timestamp.proto'' @ [CHR 0x22] @ '';'', '''',
        ''import '' @ [CHR 0x22] @ ''a.proto'' @ [CHR 0x22] @ '';'',
        ''import '' @ [CHR 0x22] @ ''b.proto'' @ [CHR 0x22] @ '';'', '''',
        ''package x.y;'', '''',
        ''option go_package = foopb;'', ''option (foo.bar).baz = true;'', '''']"
    by code_simp
  then show ?thesis
    using header_sections_in_order
            [of insertionSlice onePerLine exampleRegistry exampleConfig fullHeaderDoc]
    by simp
qed

text \<open>
  C1 as stated fails: a plain option and a custom option are rendered with no blank
  line between them, where the claim has one between any two non-empty sections.
\<close>

theorem header_sections_counterexample:
  "fst (firstPass insertionSlice onePerLine exampleRegistry exampleConfig
          [VOption plainOption, VOption customOption])
     = [''option go_package = foopb;'', ''option (foo.bar).baz = true;'', '''']
   \<and> fst (firstPass insertionSlice onePerLine exampleRegistry exampleConfig
            [VOption plainOption, VOption customOption])
     \<noteq> claimedHeaderText insertionSlice onePerLine exampleRegistry
         [VOption plainOption, VOption customOption]"
  by code_simp

section \<open>Duplicate declarations (C2)\<close>

lemma syntaxOf_drop: "drop (Suc 0) (syntaxOf d) = []"
  by (cases d) simp_all

lemma packageOf_drop: "drop (Suc 0) (packageOf d) = []"
  by (cases d) simp_all

lemma syntaxOf_packageOf: "syntaxOf d = [] \<or> packageOf d = []"
  by (cases d) simp_all

lemma drop1_append: "drop (Suc 0) (xs @ ys) = (if xs = [] then drop (Suc 0) ys else drop (Suc 0) xs @ ys)"
  by (cases xs) simp_all

lemma visitAll_Failures_step:
  "Failures (visitAll FilenameMap (doc @ [d]) (newFirstPassVisitor config))
     = Failures (visitAll FilenameMap doc (newFirstPassVisitor config))
       @ (if syntaxesOf doc = [] then [] else map syntaxFailure (syntaxOf d))
       @ (if packagesOf doc = [] then [] else map packageFailure (packageOf d))"
  by (simp add: visitAll_snoc Accept_Failures visitAll_Syntax visitAll_Package first_None
        syntaxFailure_def packageFailure_def)

lemma filter_syntaxFailure:
  "filter (\<lambda>f. Message f = ''duplicate syntax specified'') (map syntaxFailure xs) = map syntaxFailure xs"
  "filter (\<lambda>f. Message f = ''duplicate syntax specified'') (map packageFailure ys) = []"
  "filter (\<lambda>f. Message f = ''duplicate package specified'') (map syntaxFailure xs) = []"
  "filter (\<lambda>f. Message f = ''duplicate package specified'') (map packageFailure ys) = map packageFailure ys"
  by (simp_all add: filter_map o_def syntaxFailure_def packageFailure_def)

lemma visitAll_Failures_syntax:
  "filter (\<lambda>f. Message f = ''duplicate syntax specified'')
          (Failures (visitAll FilenameMap doc (newFirstPassVisitor config)))
     = map syntaxFailure (drop 1 (syntaxesOf doc))"
proof (induction doc rule: rev_induct)
  case Nil
  show ?case by (simp add: visitAll_Nil newFirstPassVisitor_def syntaxesOf_def)
next
  case (snoc d doc)
  have "syntaxesOf (doc @ [d]) = syntaxesOf doc @ syntaxOf d"
    by (simp add: syntaxesOf_def)
  with snoc show ?case
    by (simp add: visitAll_Failures_step filter_syntaxFailure drop1_append syntaxOf_drop
          del: drop_append)
qed

lemma visitAll_Failures_package:
  "filter (\<lambda>f. Message f = ''duplicate package specified'')
          (Failures (visitAll FilenameMap doc (newFirstPassVisitor config)))
     = map packageFailure (drop 1 (packagesOf doc))"
proof (induction doc rule: rev_induct)
  case Nil
  show ?case by (simp add: visitAll_Nil newFirstPassVisitor_def packagesOf_def)
next
  case (snoc d doc)
  have "packagesOf (doc @ [d]) = packagesOf doc @ packageOf d"
    by (simp add: packagesOf_def)
  with snoc show ?case
    by (simp add: visitAll_Failures_step filter_syntaxFailure drop1_append packageOf_drop
          del: drop_append)
qed

lemma length_syntaxOf: "length (syntaxOf d) \<le> 1"
  by (cases d) simp_all

lemma length_packageOf: "length (packageOf d) \<le> 1"
  by (cases d) simp_all

lemma visitAll_Failures_length:
  "length (Failures (visitAll FilenameMap doc (newFirstPassVisitor config)))
     = (length (syntaxesOf doc) - 1) + (length (packagesOf doc) - 1)"
proof (induction doc rule: rev_induct)
  case Nil
  show ?case
    by (simp add: visitAll_Nil newFirstPassVisitor_def syntaxesOf_def packagesOf_def)
next
  case (snoc d doc)
  have a: "syntaxesOf (doc @ [d]) = syntaxesOf doc @ syntaxOf d"
    by (simp add: syntaxesOf_def)
  have b: "packagesOf (doc @ [d]) = packagesOf doc @ packageOf d"
    by (simp add: packagesOf_def)
  have c: "length (syntaxOf d) \<le> 1" "length (packageOf d) \<le> 1"
    by (rule length_syntaxOf, rule length_packageOf)
  have "length (Failures (visitAll FilenameMap (doc @ [d]) (newFirstPassVisitor config)))
          = length (Failures (visitAll FilenameMap doc (newFirstPassVisitor config)))
            + (if syntaxesOf doc = [] then 0 else length (syntaxOf d))
            + (if packagesOf doc = [] then 0 else length (packageOf d))"
    by (simp add: visitAll_Failures_step)
  with snoc c show ?case
    unfolding a b by (cases "syntaxesOf doc"; cases "packagesOf doc"; simp)
qed

lemma dropExtras_syntaxes:
  "syntaxesOf (dropExtras ss sp doc) = (if ss then [] else take 1 (syntaxesOf doc))"
  by (induction ss sp doc rule: dropExtras.induct) (simp_all add: syntaxesOf_def)

lemma dropExtras_packages:
  "packagesOf (dropExtras ss sp doc) = (if sp then [] else take 1 (packagesOf doc))"
  by (induction ss sp doc rule: dropExtras.induct) (simp_all add: packagesOf_def)

lemma dropExtras_options: "optionsOf (dropExtras ss sp doc) = optionsOf doc"
  by (induction ss sp doc rule: dropExtras.induct) (simp_all add: optionsOf_def)

lemma dropExtras_imports: "importsOf (dropExtras ss sp doc) = importsOf doc"
  by (induction ss sp doc rule: dropExtras.induct) (simp_all add: importsOf_def)

lemma dropExtras_header:
  "takeWhile isComment (dropExtras False False doc) = takeWhile isComment doc"
proof (induction doc)
  case Nil
  show ?case by simp
next
  case (Cons d ds)
  then show ?case by (cases d) simp_all
qed

lemma first_take: "first (take (Suc 0) xs) = first xs"
  by (cases xs) (simp_all add: first_def)

lemma dropExtras_text:
  "headerText Slice block FilenameMap (dropExtras False False doc) = headerText Slice block FilenameMap doc"
  by (simp add: headerText_def headerLines_def headerComments_def dropExtras_header
        dropExtras_syntaxes dropExtras_packages first_take wktImportsOf_def
        regularImportsOf_def plainOptionsOf_def customOptionsOf_def dropExtras_options
        dropExtras_imports)

lemma dropExtras_Failures:
  "Failures (visitAll FilenameMap (dropExtras False False doc) (newFirstPassVisitor config)) = []"
proof -
  have "length (Failures (visitAll FilenameMap (dropExtras False False doc)
                            (newFirstPassVisitor config))) = 0"
    unfolding visitAll_Failures_length by (simp add: dropExtras_syntaxes dropExtras_packages)
  then show ?thesis by simp
qed

text \<open>
  C2. The pass retains the first Syntax and the first Package of the document, and
  these are the only ones it renders: the text is the leading comments, the syntax
  section of the first Syntax, the two groups of imports, the package section of the
  first Package and the options, whatever Syntax and Package declarations follow the
  first ones. Its diagnostics with the message "duplicate syntax specified" are one for
  each Syntax after the first, in document order, each at the position of that extra
  declaration; the same holds for Package with "duplicate package specified"; there is
  no other diagnostic. The traversal and the rendering go on: the text is that of the
  document with the extra declarations deleted, for which the pass has no diagnostic.
\<close>

theorem duplicate_declarations:
  "Syntax (visitAll FilenameMap doc (newFirstPassVisitor config)) = first (syntaxesOf doc)
   \<and> Package (visitAll FilenameMap doc (newFirstPassVisitor config)) = first (packagesOf doc)
   \<and> fst (firstPass Slice block FilenameMap config doc)
       = headerLines doc
         @ (case syntaxesOf doc of
              [] \<Rightarrow> []
            | s # extra \<Rightarrow>
                (case Comment s of None \<Rightarrow> [] | Some c \<Rightarrow> Lines c @ [''''])
                @ [syntaxLine s, ''''])
         @ importsSection Slice (wktImportsOf FilenameMap doc)
         @ importsSection Slice (regularImportsOf FilenameMap doc)
         @ (case packagesOf doc of
              [] \<Rightarrow> []
            | p # extra \<Rightarrow>
                (case Comment p of None \<Rightarrow> [] | Some c \<Rightarrow> Lines c)
                @ [packageLine p, ''''])
         @ optionsSection block (plainOptionsOf doc) (customOptionsOf doc)
   \<and> filter (\<lambda>f. Message f = ''duplicate syntax specified'')
        (snd (firstPass Slice block FilenameMap config doc))
       = map (\<lambda>e. \<lparr>Failure_Position = Position e, Message = ''duplicate syntax specified''\<rparr>)
           (drop 1 (syntaxesOf doc))
   \<and> filter (\<lambda>f. Message f = ''duplicate package specified'')
        (snd (firstPass Slice block FilenameMap config doc))
       = map (\<lambda>e. \<lparr>Failure_Position = Position e, Message = ''duplicate package specified''\<rparr>)
           (drop 1 (packagesOf doc))
   \<and> length (snd (firstPass Slice block FilenameMap config doc))
       = (length (syntaxesOf doc) - 1) + (length (packagesOf doc) - 1)
   \<and> firstPass Slice block FilenameMap config (dropExtras False False doc)
       = (fst (firstPass Slice block FilenameMap config doc), [])"
proof -
  have "firstPass Slice block FilenameMap config (dropExtras False False doc)
          = (fst (firstPass Slice block FilenameMap config doc), [])"
    by (simp add: prod_eq_iff firstPass_text firstPass_failures dropExtras_text
          dropExtras_Failures)
  moreover have "filter (\<lambda>f. Message f = ''duplicate syntax specified'')
        (snd (firstPass Slice block FilenameMap config doc))
       = map (\<lambda>e. \<lparr>Failure_Position = Position e, Message = ''duplicate syntax specified''\<rparr>)
           (drop 1 (syntaxesOf doc))"
    using visitAll_Failures_syntax [of FilenameMap doc config]
    by (simp add: firstPass_failures syntaxFailure_def)
  moreover have "filter (\<lambda>f. Message f = ''duplicate package specified'')
        (snd (firstPass Slice block FilenameMap config doc))
       = map (\<lambda>e. \<lparr>Failure_Position = Position e, Message = ''duplicate package specified''\<rparr>)
           (drop 1 (packagesOf doc))"
    using visitAll_Failures_package [of FilenameMap doc config]
    by (simp add: firstPass_failures packageFailure_def)
  moreover have "fst (firstPass Slice block FilenameMap config doc)
       = headerLines doc
         @ (case syntaxesOf doc of
              [] \<Rightarrow> []
            | s # extra \<Rightarrow>
                (case Comment s of None \<Rightarrow> [] | Some c \<Rightarrow> Lines c @ [''''])
                @ [syntaxLine s, ''''])
         @ importsSection Slice (wktImportsOf FilenameMap doc)
         @ importsSection Slice (regularImportsOf FilenameMap doc)
         @ (case packagesOf doc of
              [] \<Rightarrow> []
            | p # extra \<Rightarrow>
                (case Comment p of None \<Rightarrow> [] | Some c \<Rightarrow> Lines c)
                @ [packageLine p, ''''])
         @ optionsSection block (plainOptionsOf doc) (customOptionsOf doc)"
    by (simp add: firstPass_text headerText_def syntaxSection_def packageSection_def
          commentLines_def first_def split: list.splits)
  ultimately show ?thesis
    by (simp only: visitAll_Syntax visitAll_Package firstPass_failures
          visitAll_Failures_length simp_thms)
qed

text \<open>
  A document with three Syntax and two Package declarations: the text has the first
  Syntax and the first Package, and the three extra declarations have one diagnostic
  each.
\<close>

theorem duplicate_declarations_witness:
  "fst (firstPass insertionSlice onePerLine exampleRegistry exampleConfig duplicatesDoc)
     = [''syntax = '' @ [CHR 0x22] @ ''proto3'' @ [CHR 0x22] @ '';'', '''',
        ''package x.y;'', '''']
   \<and> filter (\<lambda>f. Message f = ''duplicate syntax specified'')
      (snd (firstPass insertionSlice onePerLine exampleRegistry exampleConfig duplicatesDoc))
     = [\<lparr>Failure_Position = at 3 1, Message = ''duplicate syntax specified''\<rparr>,
        \<lparr>Failure_Position = at 6 1, Message = ''duplicate syntax specified''\<rparr>]
   \<and> filter (\<lambda>f. Message f = ''duplicate package specified'')
      (snd (firstPass insertionSlice onePerLine exampleRegistry exampleConfig duplicatesDoc))
     = [\<lparr>Failure_Position = at 5 1, Message = ''duplicate package specified''\<rparr>]
   \<and> length (snd (firstPass insertionSlice onePerLine exampleRegistry exampleConfig duplicatesDoc))
     = 3
   \<and> Syntax (visitAll exampleRegistry duplicatesDoc (newFirstPassVisitor exampleConfig))
     = Some (syntaxAt 1 ''proto3'')"
proof -
  note claim = duplicate_declarations
                 [where FilenameMap = exampleRegistry and doc = duplicatesDoc
                    and config = exampleConfig and Slice = insertionSlice
                    and block = onePerLine]
  have "headerLines duplicatesDoc
         @ (case syntaxesOf duplicatesDoc of
              [] \<Rightarrow> []
            | s # extra \<Rightarrow>
                (case Comment s of None \<Rightarrow> [] | Some c \<Rightarrow> Lines c @ [''''])
                @ [syntaxLine s, ''''])
         @ importsSection insertionSlice (wktImportsOf exampleRegistry duplicatesDoc)
         @ importsSection insertionSlice (regularImportsOf exampleRegistry duplicatesDoc)
         @ (case packagesOf duplicatesDoc of
              [] \<Rightarrow> []
            | p # extra \<Rightarrow>
                (case Comment p of None \<Rightarrow> [] | Some c \<Rightarrow> Lines c)
                @ [packageLine p, ''''])
         @ optionsSection onePerLine (plainOptionsOf duplicatesDoc)
             (customOptionsOf duplicatesDoc)
       = [''syntax = '' @ [CHR 0x22] @ ''proto3'' @ [CHR 0x22] @ '';'', '''',
          ''package x.y;'', '''']"
    by code_simp
  with claim have rendered:
    "fst (firstPass insertionSlice onePerLine exampleRegistry exampleConfig duplicatesDoc)
       = [''syntax = '' @ [CHR 0x22] @ ''proto3'' @ [CHR 0x22] @ '';'', '''',
          ''package x.y;'', '''']"
    by simp
  have kinds: "syntaxesOf duplicatesDoc
                 = [syntaxAt 1 ''proto3'', syntaxAt 3 ''proto2'', syntaxAt 6 ''proto3'']"
    "packagesOf duplicatesDoc = [packageAt 2 ''x.y'', packageAt 5 ''z'']"
    by (simp_all add: duplicatesDoc_def syntaxesOf_def packagesOf_def)
  from claim rendered show ?thesis
    by (simp add: kinds first_def syntaxAt_def packageAt_def)
qed

section \<open>The partition and the order of the imports (C3)\<close>

text \<open>
  C3. An import is in the group of well-known types iff its filename is a key of the
  registry, and in the regular group otherwise. The text has the group of well-known
  types before the regular group, each group being its imports (each import line after
  its leading comment) as \<^verbatim>\<open>sort.Slice\<close> leaves them and followed by a blank line. For
  every sort within the contract of \<^verbatim>\<open>sort.Slice\<close>, each group is then a permutation of
  its imports in ascending order of filename, and for a document whose imports are a
  permutation of those of \<open>doc\<close> the filenames of each group come out in the same
  order.
\<close>

theorem imports_partition_and_order:
  assumes "sort_Slice_contract Slice"
    and "mset (importsOf doc') = mset (importsOf doc)"
  shows
  "WKTImports (visitAll FilenameMap doc (newFirstPassVisitor config))
     = filter (\<lambda>e. Filename e \<in> dom FilenameMap) (importsOf doc)
   \<and> Imports (visitAll FilenameMap doc (newFirstPassVisitor config))
     = filter (\<lambda>e. Filename e \<notin> dom FilenameMap) (importsOf doc)
   \<and> fst (firstPass Slice block FilenameMap config doc)
     = (headerLines doc @ syntaxSection (first (syntaxesOf doc)))
       @ (if wktImportsOf FilenameMap doc = [] then []
          else concat (map importBlock (sortedImports Slice (wktImportsOf FilenameMap doc)))
               @ [''''])
       @ (if regularImportsOf FilenameMap doc = [] then []
          else concat (map importBlock (sortedImports Slice (regularImportsOf FilenameMap doc)))
               @ [''''])
       @ (packageSection (first (packagesOf doc))
          @ optionsSection block (plainOptionsOf doc) (customOptionsOf doc))
   \<and> sorted (map Filename (sortedImports Slice (wktImportsOf FilenameMap doc)))
   \<and> sorted (map Filename (sortedImports Slice (regularImportsOf FilenameMap doc)))
   \<and> mset (sortedImports Slice (wktImportsOf FilenameMap doc))
       = mset (wktImportsOf FilenameMap doc)
   \<and> mset (sortedImports Slice (regularImportsOf FilenameMap doc))
       = mset (regularImportsOf FilenameMap doc)
   \<and> map Filename (sortedImports Slice (wktImportsOf FilenameMap doc'))
       = map Filename (sortedImports Slice (wktImportsOf FilenameMap doc))
   \<and> map Filename (sortedImports Slice (regularImportsOf FilenameMap doc'))
       = map Filename (sortedImports Slice (regularImportsOf FilenameMap doc))"
proof -
  have rendered: "fst (firstPass Slice block FilenameMap config doc)
     = (headerLines doc @ syntaxSection (first (syntaxesOf doc)))
       @ (if wktImportsOf FilenameMap doc = [] then []
          else concat (map importBlock (sortedImports Slice (wktImportsOf FilenameMap doc)))
               @ [''''])
       @ (if regularImportsOf FilenameMap doc = [] then []
          else concat (map importBlock (sortedImports Slice (regularImportsOf FilenameMap doc)))
               @ [''''])
       @ (packageSection (first (packagesOf doc))
          @ optionsSection block (plainOptionsOf doc) (customOptionsOf doc))"
    by (simp add: firstPass_text headerText_def importsSection_def)
  have perm_wkt: "map Filename (sortedImports Slice (wktImportsOf FilenameMap doc'))
       = map Filename (sortedImports Slice (wktImportsOf FilenameMap doc))"
    unfolding wktImportsOf_def using assms by (rule sortedImports_permuted)
  have perm_regular: "map Filename (sortedImports Slice (regularImportsOf FilenameMap doc'))
       = map Filename (sortedImports Slice (regularImportsOf FilenameMap doc))"
    unfolding regularImportsOf_def using assms by (rule sortedImports_permuted)
  have groups: "WKTImports (visitAll FilenameMap doc (newFirstPassVisitor config))
       = filter (\<lambda>e. Filename e \<in> dom FilenameMap) (importsOf doc)"
    "Imports (visitAll FilenameMap doc (newFirstPassVisitor config))
       = filter (\<lambda>e. Filename e \<notin> dom FilenameMap) (importsOf doc)"
    by (simp_all add: visitAll_WKTImports visitAll_Imports wktImportsOf_def
          regularImportsOf_def)
  from rendered perm_wkt perm_regular groups show ?thesis
    by (simp only: sortedImports_sorted [OF assms(1)] sortedImports_mset [OF assms(1)]
          simp_thms)
qed

text \<open>
  The imports of the scenario of section 8, in two orders, sorted by a sort that is not
  stable.
\<close>

theorem imports_partition_and_order_witness:
  "mset (importsOf importsDocPermuted) = mset (importsOf importsDoc)
   \<and> map Filename (WKTImports (visitAll exampleRegistry importsDoc
                                  (newFirstPassVisitor exampleConfig)))
       = [''google/protobuf/timestamp.proto'', ''google/protobuf/any.proto'']
   \<and> map Filename (Imports (visitAll exampleRegistry importsDoc
                               (newFirstPassVisitor exampleConfig)))
       = [''b.proto'', ''a.proto'']
   \<and> map Filename (sortedImports reversingSlice (wktImportsOf exampleRegistry importsDocPermuted))
       = [''google/protobuf/any.proto'', ''google/protobuf/timestamp.proto'']
   \<and> map Filename (sortedImports reversingSlice
                      (regularImportsOf exampleRegistry importsDocPermuted))
       = [''a.proto'', ''b.proto'']"
proof -
  have perm: "mset (importsOf importsDocPermuted) = mset (importsOf importsDoc)"
    by (simp add: importsDoc_def importsDocPermuted_def importsOf_def)
  have wkt: "map Filename (sortedImports reversingSlice (wktImportsOf exampleRegistry importsDoc))
       = [''google/protobuf/any.proto'', ''google/protobuf/timestamp.proto'']"
    by code_simp
  have regular: "map Filename (sortedImports reversingSlice
                                 (regularImportsOf exampleRegistry importsDoc))
       = [''a.proto'', ''b.proto'']"
    by code_simp
  have dom: "dom exampleRegistry
       = {''google/protobuf/any.proto'', ''google/protobuf/timestamp.proto''}"
    by (auto simp add: exampleRegistry_def)
  show ?thesis
    using imports_partition_and_order
            [OF reversingSlice_contract perm, where FilenameMap = exampleRegistry
               and config = exampleConfig and block = onePerLine]
          perm wkt regular
    by (simp add: dom importsDoc_def importsOf_def importAt_def)
qed

section \<open>The classification of options (C4)\<close>

lemma isProbablyCustomOption_iff:
  "isProbablyCustomOption e = (\<exists>rest. proto_Option.Name e = CHR ''('' # rest)"
  by (cases "proto_Option.Name e") (simp_all add: isProbablyCustomOption_def)

text \<open>
  C4. An option is custom iff its name begins with \<open>(\<close>, and plain otherwise. The
  pass keeps the plain options and the custom options in two lists, each in encounter
  order (the list of the document's options, filtered), and never sorts them. An option
  named \<open>(foo.bar).baz\<close> is custom; \<open>go_package\<close> and the dotted name
  \<open>google.protobuf.java_package\<close> are plain.
\<close>

theorem option_classification:
  "isProbablyCustomOption e = (\<exists>rest. proto_Option.Name e = CHR ''('' # rest)
   \<and> Options (visitAll FilenameMap doc (newFirstPassVisitor config))
       = filter (\<lambda>e. \<not> isProbablyCustomOption e) (optionsOf doc)
   \<and> ProbablyCustomOptions (visitAll FilenameMap doc (newFirstPassVisitor config))
       = filter isProbablyCustomOption (optionsOf doc)
   \<and> isProbablyCustomOption customOption
   \<and> \<not> isProbablyCustomOption plainOption
   \<and> \<not> isProbablyCustomOption dottedOption"
proof -
  have "isProbablyCustomOption customOption" "\<not> isProbablyCustomOption plainOption"
    "\<not> isProbablyCustomOption dottedOption"
    by (simp_all add: isProbablyCustomOption_def customOption_def plainOption_def
          dottedOption_def)
  then show ?thesis
    using isProbablyCustomOption_iff [of e]
    by (simp add: visitAll_Options visitAll_ProbablyCustomOptions plainOptionsOf_def
          customOptionsOf_def)
qed

theorem option_classification_witness:
  "Options (visitAll exampleRegistry optionsDoc (newFirstPassVisitor exampleConfig))
     = [optionNamed ''java_package'', optionNamed ''go_package'']
   \<and> ProbablyCustomOptions (visitAll exampleRegistry optionsDoc (newFirstPassVisitor exampleConfig))
     = [optionNamed ''(z.last)'', optionNamed ''(a.first)'']"
  using option_classification [of "optionNamed ''(z.last)''" exampleRegistry optionsDoc exampleConfig]
  by (simp add: optionsDoc_def optionsOf_def isProbablyCustomOption_def optionNamed_def)

section \<open>The flag \<open>haveHitNonComment\<close> (C5)\<close>

lemma visitAll_past_header:
  "haveHitNonComment v \<Longrightarrow>
     haveHitNonComment (visitAll FilenameMap doc v) \<and> buffer (visitAll FilenameMap doc v) = buffer v"
proof (induction doc arbitrary: v)
  case Nil
  then show ?case by (simp add: visitAll_Nil)
next
  case (Cons d ds)
  have "haveHitNonComment (Accept FilenameMap d v)"
    using Cons.prems by (simp add: Accept_haveHitNonComment)
  moreover have "buffer (Accept FilenameMap d v) = buffer v"
    using Cons.prems by (simp add: Accept_buffer)
  ultimately show ?case using Cons.IH [of "Accept FilenameMap d v"]
    by (simp add: visitAll_Cons)
qed

lemma VisitComment_cases:
  "Accept FilenameMap (VComment c) v
     = (if haveHitNonComment v then v else v\<lparr>buffer := buffer v @ Lines c @ ['''']\<rparr>)"
  by (simp add: VisitComment_def PComment_emit P_emit emit_emit commentLines_def emit_def)

text \<open>
  C5. The flag is false in a new visitor; a visit never resets it; every declaration
  that is not a comment sets it, a comment leaves it as it is. A comment visited while
  the flag is false appends its lines and one blank line to the output; visited while
  the flag is true it changes nothing. Once the flag is true the rest of the traversal
  keeps it true and produces no output. After the traversal of a document the flag
  tells whether the document has a declaration that is not a comment.
\<close>

theorem haveHitNonComment_monotonic:
  "\<not> haveHitNonComment (newFirstPassVisitor config)
   \<and> (haveHitNonComment v \<longrightarrow> haveHitNonComment (Accept FilenameMap d v))
   \<and> (\<not> isComment d \<longrightarrow> haveHitNonComment (Accept FilenameMap d v))
   \<and> haveHitNonComment (Accept FilenameMap (VComment c) v) = haveHitNonComment v
   \<and> Accept FilenameMap (VComment c) v
       = (if haveHitNonComment v then v else v\<lparr>buffer := buffer v @ Lines c @ ['''']\<rparr>)
   \<and> (haveHitNonComment v \<longrightarrow>
        haveHitNonComment (visitAll FilenameMap doc v)
        \<and> buffer (visitAll FilenameMap doc v) = buffer v)
   \<and> haveHitNonComment (visitAll FilenameMap doc (newFirstPassVisitor config))
       = (\<exists>d \<in> set doc. \<not> isComment d)"
proof -
  have "haveHitNonComment (visitAll FilenameMap doc (newFirstPassVisitor config))
          = (\<exists>d \<in> set doc. \<not> isComment d)"
    by (simp add: visitAll_haveHitNonComment list_all_iff)
  moreover have "\<not> haveHitNonComment (newFirstPassVisitor config)"
    by (simp add: newFirstPassVisitor_def)
  moreover have "haveHitNonComment (Accept FilenameMap (VComment c) v) = haveHitNonComment v"
    by (simp add: Accept_haveHitNonComment del: Accept.simps)
  ultimately show ?thesis
    using visitAll_past_header [of v FilenameMap doc] VisitComment_cases [of FilenameMap c v]
    by (simp add: Accept_haveHitNonComment del: Accept.simps)
qed

theorem haveHitNonComment_monotonic_witness:
  "haveHitNonComment (Accept exampleRegistry VMessage (newFirstPassVisitor exampleConfig))
   \<and> haveHitNonComment
       (Accept exampleRegistry (VComment laterComment)
          (Accept exampleRegistry VMessage (newFirstPassVisitor exampleConfig)))
   \<and> buffer
       (visitAll exampleRegistry [VComment laterComment, VEnum, VComment laterComment]
          (Accept exampleRegistry VMessage (newFirstPassVisitor exampleConfig))) = []
   \<and> buffer (Accept exampleRegistry (VComment headerComment) (newFirstPassVisitor exampleConfig))
       = [''// header'', '''']"
proof -
  have a: "\<not> isComment VMessage" by simp
  have b: "haveHitNonComment (Accept exampleRegistry VMessage (newFirstPassVisitor exampleConfig))"
    using haveHitNonComment_monotonic
            [of exampleConfig "newFirstPassVisitor exampleConfig" exampleRegistry VMessage]
          a
    by blast
  have c: "buffer (Accept exampleRegistry VMessage (newFirstPassVisitor exampleConfig)) = []"
    by (simp add: newFirstPassVisitor_def)
  show ?thesis
    using b c
      haveHitNonComment_monotonic
        [of exampleConfig "Accept exampleRegistry VMessage (newFirstPassVisitor exampleConfig)"
            exampleRegistry "VComment laterComment" laterComment
            "[VComment laterComment, VEnum, VComment laterComment]"]
      haveHitNonComment_monotonic
        [of exampleConfig "newFirstPassVisitor exampleConfig" exampleRegistry
            "VComment headerComment" headerComment "[]"]
    by (simp add: headerComment_def newFirstPassVisitor_def)
qed

section \<open>A document with a single syntax declaration, or with comments only (C6)\<close>

text \<open>
  C6, as amended. A document with exactly one Syntax and no import, option or package
  renders as: each leading comment followed by one blank line, then the leading comment
  of the syntax declaration followed by one blank line (if it has one), then the syntax
  line and one blank line; with no comment at all that is the syntax line and one blank
  line. A document with no syntax, package, import or option renders as its leading
  comments, each followed by one blank line.
\<close>

theorem single_syntax_text:
  "(syntaxesOf doc = [s] \<and> importsOf doc = [] \<and> optionsOf doc = [] \<and> packagesOf doc = []
      \<longrightarrow> fst (firstPass Slice block FilenameMap config doc)
            = concat (map (\<lambda>c. Lines c @ ['''']) (headerComments doc))
              @ (case Comment s of None \<Rightarrow> [] | Some c \<Rightarrow> Lines c @ [''''])
              @ [syntaxLine s, ''''])
   \<and> (syntaxesOf doc = [] \<and> importsOf doc = [] \<and> optionsOf doc = [] \<and> packagesOf doc = []
      \<longrightarrow> fst (firstPass Slice block FilenameMap config doc)
            = concat (map (\<lambda>c. Lines c @ ['''']) (headerComments doc)))"
  by (simp add: firstPass_text headerText_def headerLines_def syntaxSection_def
        importsSection_def packageSection_def optionsSection_def wktImportsOf_def
        regularImportsOf_def plainOptionsOf_def customOptionsOf_def first_def)

theorem single_syntax_text_witness:
  "fst (firstPass insertionSlice onePerLine exampleRegistry exampleConfig
          [VComment headerComment, VSyntax (syntaxAt 3 ''proto3''), VMessage])
     = [''// header'', '''', ''syntax = '' @ [CHR 0x22] @ ''proto3'' @ [CHR 0x22] @ '';'', '''']
   \<and> fst (firstPass insertionSlice onePerLine exampleRegistry exampleConfig [VSyntax (syntaxAt 3 ''proto3'')])
     = [''syntax = '' @ [CHR 0x22] @ ''proto3'' @ [CHR 0x22] @ '';'', '''']
   \<and> fst (firstPass insertionSlice onePerLine exampleRegistry exampleConfig [VComment headerComment])
     = [''// header'', '''']"
  using single_syntax_text
          [of "[VComment headerComment, VSyntax (syntaxAt 3 ''proto3''), VMessage]"
              "syntaxAt 3 ''proto3''" insertionSlice onePerLine exampleRegistry exampleConfig]
        single_syntax_text
          [of "[VSyntax (syntaxAt 3 ''proto3'')]"
              "syntaxAt 3 ''proto3''" insertionSlice onePerLine exampleRegistry exampleConfig]
        single_syntax_text
          [of "[VComment headerComment]"
              "syntaxAt 3 ''proto3''" insertionSlice onePerLine exampleRegistry exampleConfig]
  by (simp add: syntaxesOf_def importsOf_def optionsOf_def packagesOf_def headerComments_def
        commentsOf_def syntaxAt_def headerComment_def syntaxLine_def inlineText_def)

text \<open>
  C6 as stated fails: the comment block is followed by a blank line, also when the
  document has nothing but the comment.
\<close>

theorem single_syntax_text_counterexample:
  "fst (firstPass insertionSlice onePerLine exampleRegistry exampleConfig [VComment headerComment])
     = [''// header'', '''']
   \<and> fst (firstPass insertionSlice onePerLine exampleRegistry exampleConfig [VComment headerComment])
     \<noteq> claimedCommentOnlyText [VComment headerComment]
   \<and> fst (firstPass insertionSlice onePerLine exampleRegistry exampleConfig
            [VComment headerComment, VSyntax (syntaxAt 3 ''proto3'')])
     \<noteq> claimedSingleSyntaxText [VComment headerComment, VSyntax (syntaxAt 3 ''proto3'')]
         (syntaxAt 3 ''proto3'')"
  by code_simp

section \<open>The search for the configuration file (C9)\<close>

lemma splitSep_nonempty: "splitSep p \<noteq> []"
  by (induction p) (simp_all split: list.splits)

lemma splitSep_append: "splitSep (x @ CHR ''/'' # y) = splitSep x @ splitSep y"
proof (induction x)
  case Nil
  show ?case by simp
next
  case (Cons c x)
  then show ?case
    using splitSep_nonempty [of x] by (cases "splitSep x") simp_all
qed

lemma splitSep_noSep: "CHR ''/'' \<notin> set e \<Longrightarrow> splitSep e = [e]"
  by (induction e) auto

lemma splitSep_elems: "e \<in> set (splitSep p) \<Longrightarrow> CHR ''/'' \<notin> set e"
proof (induction p arbitrary: e)
  case Nil
  then show ?case by simp
next
  case (Cons c p)
  then show ?case
    using splitSep_nonempty [of p]
    by (cases "splitSep p") (auto split: if_splits)
qed

lemma joinSep_snoc: "bs \<noteq> [] \<Longrightarrow> joinSep (bs @ [e]) = joinSep bs @ CHR ''/'' # e"
  by (induction bs rule: joinSep.induct) simp_all

lemma splitSep_joinSep:
  "es \<noteq> [] \<Longrightarrow> list_all validElem es \<Longrightarrow> splitSep (joinSep es) = es"
proof (induction es rule: rev_induct)
  case Nil
  then show ?case by simp
next
  case (snoc e es)
  show ?case
  proof (cases "es = []")
    case True
    with snoc.prems show ?thesis by (simp add: validElem_def splitSep_noSep)
  next
    case False
    with snoc show ?thesis
      by (simp add: joinSep_snoc splitSep_append validElem_def splitSep_noSep)
  qed
qed

lemma foldl_cleanStep_valid:
  "list_all validElem es \<Longrightarrow> foldl (cleanStep r) st es = st @ es"
  by (induction es arbitrary: st) (simp_all add: cleanStep_def validElem_def)

lemma cleanStep_empty: "cleanStep r st [] = st"
  by (simp add: cleanStep_def)

lemma Clean_absPath: "list_all validElem es \<Longrightarrow> Clean (absPath es) = absPath es"
proof (cases "es = []")
  case True
  then show ?thesis by (simp add: Clean_def absPath_def cleanStep_def)
next
  case False
  assume "list_all validElem es"
  with False show ?thesis
    by (simp add: Clean_def absPath_def splitSep_joinSep cleanStep_empty foldl_cleanStep_valid)
qed

lemma cleanStep_keeps_valid:
  "list_all validElem st \<Longrightarrow> CHR ''/'' \<notin> set e \<Longrightarrow> list_all validElem (cleanStep True st e)"
  by (auto simp add: cleanStep_def validElem_def list_all_iff dest: in_set_butlastD)

lemma foldl_cleanStep_keeps_valid:
  "list_all validElem st \<Longrightarrow> (\<And>e. e \<in> set es \<Longrightarrow> CHR ''/'' \<notin> set e)
     \<Longrightarrow> list_all validElem (foldl (cleanStep True) st es)"
  by (induction es arbitrary: st) (simp_all add: cleanStep_keeps_valid)

lemma Clean_abs_canonical:
  assumes "IsAbs path"
  shows "\<exists>es. list_all validElem es \<and> Clean path = absPath es"
proof -
  from assms have "path \<noteq> []" "take 1 path = ''/''"
    by (auto simp add: IsAbs_def)
  then have "Clean path = absPath (foldl (cleanStep True) [] (splitSep path))"
    by (simp add: Clean_def absPath_def)
  moreover have "list_all validElem (foldl (cleanStep True) [] (splitSep path))"
    by (rule foldl_cleanStep_keeps_valid) (simp_all add: splitSep_elems)
  ultimately show ?thesis by blast
qed

lemma dropWhile_last_elem:
  "CHR ''/'' \<notin> set e \<Longrightarrow>
     dropWhile (\<lambda>c. c \<noteq> CHR ''/'') (rev e @ CHR ''/'' # ys) = CHR ''/'' # ys"
  by (induction e rule: rev_induct) auto

lemma Dir_absPath:
  assumes "list_all validElem (bs @ [e])"
  shows "Dir (absPath (bs @ [e])) = absPath bs"
proof -
  from assms have e: "CHR ''/'' \<notin> set e" and bs: "list_all validElem bs"
    by (simp_all add: validElem_def)
  show ?thesis
  proof (cases "bs = []")
    case True
    have "rev (dropWhile (\<lambda>c. c \<noteq> CHR ''/'') (rev (CHR ''/'' # e))) = ''/''"
      using e by (simp add: dropWhile_last_elem)
    with True show ?thesis
      by (simp add: Dir_def absPath_def Clean_def cleanStep_def)
  next
    case False
    have "rev (dropWhile (\<lambda>c. c \<noteq> CHR ''/'') (rev (CHR ''/'' # joinSep bs @ CHR ''/'' # e)))
            = CHR ''/'' # joinSep bs @ ''/''"
      using e by (simp add: dropWhile_last_elem)
    moreover have "Clean (CHR ''/'' # joinSep bs @ ''/'') = absPath bs"
      using False bs splitSep_append [of "joinSep bs" "[]"]
      by (simp add: Clean_def absPath_def splitSep_joinSep cleanStep_empty
            foldl_cleanStep_valid)
    ultimately show ?thesis
      using False by (simp add: Dir_def absPath_def joinSep_snoc)
  qed
qed

lemma absPath_root: "list_all validElem es \<Longrightarrow> (absPath es = ''/'') = (es = [])"
  by (cases es rule: joinSep.cases) (simp_all add: absPath_def validElem_def)

lemma walk_up:
  assumes "list_all validElem es"
  shows "\<exists>filePath ds.
           getFilePathForDir stat name (absPath es) acc = Some (filePath, acc @ ds)
         \<and> ds \<noteq> []
         \<and> ds = map (\<lambda>k. (Dir ^^ k) (absPath es)) [0..<length ds]
         \<and> (\<forall>d \<in> set (butlast ds). \<not> stat (Join d name))
         \<and> (if stat (Join (last ds) name) then filePath = Join (last ds) name
            else filePath = [] \<and> last ds = ''/'')"
  using assms
proof (induction es arbitrary: acc rule: rev_induct)
  case Nil
  have root: "absPath [] = ''/''" by (simp add: absPath_def)
  show ?case
  proof (cases "stat (Join ''/'' name)")
    case True
    then have "getFilePathForDir stat name ''/'' acc = Some (Join ''/'' name, acc @ [''/''])"
      by (simp add: getFilePathForDir.simps)
    with True show ?thesis
      unfolding root by (intro exI [of _ "Join ''/'' name"] exI [of _ "[''/'']"]) simp
  next
    case False
    then have "getFilePathForDir stat name ''/'' acc = Some ([], acc @ [''/''])"
      by (simp add: getFilePathForDir.simps)
    with False show ?thesis
      unfolding root by (intro exI [of _ "[]"] exI [of _ "[''/'']"]) simp
  qed
next
  case (snoc e bs)
  let ?p = "absPath (bs @ [e])"
  from snoc.prems have bs: "list_all validElem bs" by simp
  from snoc.prems have notroot: "?p \<noteq> ''/''" by (simp add: absPath_root)
  from snoc.prems have dir: "Dir ?p = absPath bs" by (rule Dir_absPath)
  show ?case
  proof (cases "stat (Join ?p name)")
    case True
    then have "getFilePathForDir stat name ?p acc = Some (Join ?p name, acc @ [?p])"
      by (simp add: getFilePathForDir.simps)
    with True show ?thesis
      by (intro exI [of _ "Join ?p name"] exI [of _ "[?p]"]) simp
  next
    case False
    from snoc.IH [OF bs, of "acc @ [?p]"] obtain filePath ds where
      run: "getFilePathForDir stat name (absPath bs) (acc @ [?p]) = Some (filePath, (acc @ [?p]) @ ds)"
      and nonempty: "ds \<noteq> []"
      and chain: "ds = map (\<lambda>k. (Dir ^^ k) (absPath bs)) [0..<length ds]"
      and below: "\<forall>d \<in> set (butlast ds). \<not> stat (Join d name)"
      and found: "if stat (Join (last ds) name) then filePath = Join (last ds) name
                  else filePath = [] \<and> last ds = ''/''"
      by blast
    have step: "getFilePathForDir stat name ?p acc
                  = getFilePathForDir stat name (Dir ?p) (acc @ [?p])"
      using False notroot by (subst getFilePathForDir.simps) simp
    have run': "getFilePathForDir stat name ?p acc = Some (filePath, acc @ (?p # ds))"
      using step run dir by simp
    have "map (\<lambda>k. (Dir ^^ k) ?p) [0..<length (?p # ds)]
            = ?p # map (\<lambda>k. (Dir ^^ k) (Dir ?p)) [0..<length ds]"
      by (simp add: map_upt_Suc funpow_swap1 del: upt_Suc)
    with chain dir have chain': "?p # ds = map (\<lambda>k. (Dir ^^ k) ?p) [0..<length (?p # ds)]"
      by simp
    have below': "\<forall>d \<in> set (butlast (?p # ds)). \<not> stat (Join d name)"
      using below False nonempty by simp
    have found': "if stat (Join (last (?p # ds)) name)
                  then filePath = Join (last (?p # ds)) name
                  else filePath = [] \<and> last (?p # ds) = ''/''"
      using found nonempty by simp
    from run' chain' below' found' show ?thesis
      by (intro exI [of _ filePath] exI [of _ "?p # ds"]) blast
  qed
qed

text \<open>
  C9. For every absolute directory path the search returns. The directories it visits
  are the cleaned path, its parent, the parent of that, and so on, one after the
  other; none of them but the last has the configuration file; the last either has it,
  and the search returns the path of that file, or is the root \<open>/\<close>, and the search
  returns the empty string. The lookup of the provider returns a path for an absolute
  path (the path the search returns, when the directory is not in the provider's map)
  and an error for any other path.
\<close>

theorem config_search_walks_upward:
  "(IsAbs path \<longrightarrow>
      (\<exists>filePath dirPaths.
          getFilePathForDir stat name (Clean path) [] = Some (filePath, dirPaths)
        \<and> dirPaths \<noteq> []
        \<and> dirPaths = map (\<lambda>k. (Dir ^^ k) (Clean path)) [0..<length dirPaths]
        \<and> (\<forall>d \<in> set (butlast dirPaths). \<not> stat (Join d name))
        \<and> (if stat (Join (last dirPaths) name) then filePath = Join (last dirPaths) name
           else filePath = [] \<and> last dirPaths = ''/'')
        \<and> (\<exists>r m'. GetFilePathForDir stat name path m = Some (Inr r, m'))
        \<and> (m (Clean path) = None \<longrightarrow>
             (\<exists>m'. GetFilePathForDir stat name path m = Some (Inr filePath, m')))))
   \<and> (\<not> IsAbs path \<longrightarrow>
        GetFilePathForDir stat name path m = Some (Inl (NotAbsolute path), m))"
proof (intro conjI impI)
  assume abs: "IsAbs path"
  then obtain es where es: "list_all validElem es" "Clean path = absPath es"
    using Clean_abs_canonical by blast
  from walk_up [OF es(1), of stat name "[]"] obtain filePath ds where
    run: "getFilePathForDir stat name (Clean path) [] = Some (filePath, ds)"
    and rest: "ds \<noteq> []" "ds = map (\<lambda>k. (Dir ^^ k) (Clean path)) [0..<length ds]"
      "\<forall>d \<in> set (butlast ds). \<not> stat (Join d name)"
      "if stat (Join (last ds) name) then filePath = Join (last ds) name
       else filePath = [] \<and> last ds = ''/''"
    unfolding es(2) by auto
  have hit: "\<exists>r m'. GetFilePathForDir stat name path m = Some (Inr r, m')"
    using abs run by (cases "m (Clean path)") (simp_all add: GetFilePathForDir_def)
  have miss: "m (Clean path) = None \<longrightarrow>
               (\<exists>m'. GetFilePathForDir stat name path m = Some (Inr filePath, m'))"
    using abs run by (simp add: GetFilePathForDir_def)
  from run rest hit miss
  show "\<exists>filePath dirPaths.
          getFilePathForDir stat name (Clean path) [] = Some (filePath, dirPaths)
        \<and> dirPaths \<noteq> []
        \<and> dirPaths = map (\<lambda>k. (Dir ^^ k) (Clean path)) [0..<length dirPaths]
        \<and> (\<forall>d \<in> set (butlast dirPaths). \<not> stat (Join d name))
        \<and> (if stat (Join (last dirPaths) name) then filePath = Join (last dirPaths) name
           else filePath = [] \<and> last dirPaths = ''/'')
        \<and> (\<exists>r m'. GetFilePathForDir stat name path m = Some (Inr r, m'))
        \<and> (m (Clean path) = None \<longrightarrow>
             (\<exists>m'. GetFilePathForDir stat name path m = Some (Inr filePath, m')))"
    by (intro exI [of _ filePath] exI [of _ ds]) blast
next
  assume "\<not> IsAbs path"
  then show "GetFilePathForDir stat name path m = Some (Inl (NotAbsolute path), m)"
    by (simp add: GetFilePathForDir_def)
qed

theorem config_search_walks_upward_witness:
  "IsAbs ''/a/b/../b//c/''
   \<and> getFilePathForDir exampleFiles ''prototool.yaml'' (Clean ''/a/b/../b//c/'') []
       = Some (''/a/prototool.yaml'', [''/a/b/c'', ''/a/b'', ''/a''])
   \<and> (\<exists>m'. GetFilePathForDir exampleFiles ''prototool.yaml'' ''/a/b/../b//c/'' Map.empty
              = Some (Inr ''/a/prototool.yaml'', m'))
   \<and> GetFilePathForDir exampleFiles ''prototool.yaml'' ''a/b'' Map.empty
       = Some (Inl (NotAbsolute ''a/b''), Map.empty)"
proof -
  have a: "IsAbs ''/a/b/../b//c/''"
    by (simp add: IsAbs_def)
  have r: "getFilePathForDir exampleFiles ''prototool.yaml'' (Clean ''/a/b/../b//c/'') []
             = Some (''/a/prototool.yaml'', [''/a/b/c'', ''/a/b'', ''/a''])"
    by code_simp
  have c: "(Map.empty :: string \<rightharpoonup> string) (Clean ''/a/b/../b//c/'') = None"
    by simp
  have found: "\<exists>m'. GetFilePathForDir exampleFiles ''prototool.yaml'' ''/a/b/../b//c/'' Map.empty
              = Some (Inr ''/a/prototool.yaml'', m')"
    using config_search_walks_upward
            [of "''/a/b/../b//c/''" exampleFiles "''prototool.yaml''" Map.empty] a r c
    by auto
  have n: "\<not> IsAbs ''a/b''"
    by (simp add: IsAbs_def)
  have refused: "GetFilePathForDir exampleFiles ''prototool.yaml'' ''a/b'' Map.empty
       = Some (Inl (NotAbsolute ''a/b''), Map.empty)"
    using config_search_walks_upward [of "''a/b''" exampleFiles "''prototool.yaml''" Map.empty] n
    by blast
  from a r found refused show ?thesis by blast
qed

section \<open>The blank line after the leading comment of the syntax declaration (C10)\<close>

lemma importsSection_member:
  assumes "sort_Slice_contract Slice" and "i \<in> set g" and "Comment i = Some c"
  shows "\<exists>a b. importsSection Slice g = a @ Lines c @ [importLine i] @ b"
proof -
  have "i \<in> set (sortedImports Slice g)"
    using assms(1,2) by (simp add: sortedImports_set)
  then obtain xs ys where split: "sortedImports Slice g = xs @ i # ys"
    using split_list [of i "sortedImports Slice g"] by auto
  from assms(2) have "g \<noteq> []" by auto
  with split assms(3) have "importsSection Slice g
      = concat (map importBlock xs) @ Lines c @ [importLine i]
        @ (concat (map importBlock ys) @ [[]])"
    by (simp add: importsSection_def importBlock_def commentLines_def)
  then show ?thesis by blast
qed

text \<open>
  C10. When the retained Syntax has a leading comment, the text has that comment, one
  blank line, and then the syntax line. The leading comment of the retained Package is
  followed at once by the package line, and the leading comment of an import at once
  by its import line.
\<close>

theorem leading_comment_spacing:
  "(first (syntaxesOf doc) = Some s \<and> Comment s = Some c1 \<longrightarrow>
      fst (firstPass Slice block FilenameMap config doc)
        = headerLines doc @ Lines c1 @ ['''', syntaxLine s, '''']
          @ (importsSection Slice (wktImportsOf FilenameMap doc)
             @ importsSection Slice (regularImportsOf FilenameMap doc)
             @ packageSection (first (packagesOf doc))
             @ optionsSection block (plainOptionsOf doc) (customOptionsOf doc)))
   \<and> (first (packagesOf doc) = Some p \<and> Comment p = Some c2 \<longrightarrow>
      fst (firstPass Slice block FilenameMap config doc)
        = (headerLines doc @ syntaxSection (first (syntaxesOf doc))
           @ importsSection Slice (wktImportsOf FilenameMap doc)
           @ importsSection Slice (regularImportsOf FilenameMap doc))
          @ Lines c2 @ [packageLine p, '''']
          @ optionsSection block (plainOptionsOf doc) (customOptionsOf doc))
   \<and> (sort_Slice_contract Slice \<and> i \<in> set (importsOf doc) \<and> Comment i = Some c3
       \<longrightarrow>
      (\<exists>before after.
         fst (firstPass Slice block FilenameMap config doc)
           = before @ Lines c3 @ [importLine i] @ after))"
proof (intro conjI impI)
  assume "first (syntaxesOf doc) = Some s \<and> Comment s = Some c1"
  then show "fst (firstPass Slice block FilenameMap config doc)
        = headerLines doc @ Lines c1 @ ['''', syntaxLine s, '''']
          @ (importsSection Slice (wktImportsOf FilenameMap doc)
             @ importsSection Slice (regularImportsOf FilenameMap doc)
             @ packageSection (first (packagesOf doc))
             @ optionsSection block (plainOptionsOf doc) (customOptionsOf doc))"
    by (simp add: firstPass_text headerText_def syntaxSection_def)
next
  assume "first (packagesOf doc) = Some p \<and> Comment p = Some c2"
  then show "fst (firstPass Slice block FilenameMap config doc)
        = (headerLines doc @ syntaxSection (first (syntaxesOf doc))
           @ importsSection Slice (wktImportsOf FilenameMap doc)
           @ importsSection Slice (regularImportsOf FilenameMap doc))
          @ Lines c2 @ [packageLine p, '''']
          @ optionsSection block (plainOptionsOf doc) (customOptionsOf doc)"
    by (simp add: firstPass_text headerText_def packageSection_def commentLines_def)
next
  assume a: "sort_Slice_contract Slice \<and> i \<in> set (importsOf doc) \<and> Comment i = Some c3"
  let ?pre = "headerLines doc @ syntaxSection (first (syntaxesOf doc))"
  let ?post = "packageSection (first (packagesOf doc))
               @ optionsSection block (plainOptionsOf doc) (customOptionsOf doc)"
  have rendered: "fst (firstPass Slice block FilenameMap config doc)
      = ?pre @ importsSection Slice (wktImportsOf FilenameMap doc)
        @ importsSection Slice (regularImportsOf FilenameMap doc) @ ?post"
    by (simp add: firstPass_text headerText_def)
  show "\<exists>before after.
         fst (firstPass Slice block FilenameMap config doc)
           = before @ Lines c3 @ [importLine i] @ after"
  proof (cases "Filename i \<in> dom FilenameMap")
    case True
    with a have "i \<in> set (wktImportsOf FilenameMap doc)"
      by (simp add: wktImportsOf_def)
    with a obtain x y where "importsSection Slice (wktImportsOf FilenameMap doc)
        = x @ Lines c3 @ [importLine i] @ y"
      using importsSection_member by blast
    with rendered have "fst (firstPass Slice block FilenameMap config doc)
        = (?pre @ x) @ Lines c3 @ [importLine i]
          @ (y @ importsSection Slice (regularImportsOf FilenameMap doc) @ ?post)"
      by simp
    then show ?thesis by blast
  next
    case False
    with a have "i \<in> set (regularImportsOf FilenameMap doc)"
      by (simp add: regularImportsOf_def)
    with a obtain x y where "importsSection Slice (regularImportsOf FilenameMap doc)
        = x @ Lines c3 @ [importLine i] @ y"
      using importsSection_member by blast
    with rendered have "fst (firstPass Slice block FilenameMap config doc)
        = (?pre @ importsSection Slice (wktImportsOf FilenameMap doc) @ x)
          @ Lines c3 @ [importLine i] @ (y @ ?post)"
      by simp
    then show ?thesis by blast
  qed
qed

text \<open>
  A document whose syntax, import and package each have a leading comment: only the
  comment of the syntax declaration is followed by a blank line.
\<close>

theorem leading_comment_spacing_witness:
  "fst (firstPass insertionSlice onePerLine exampleRegistry exampleConfig commentedDoc)
     = [''// the syntax'', '''', ''syntax = '' @ [CHR 0x22] @ ''proto3'' @ [CHR 0x22] @ '';'', '''',
        ''// the import'', ''import '' @ [CHR 0x22] @ ''a.proto'' @ [CHR 0x22] @ '';'', '''',
        ''// the package'', ''package x.y;'', '''']
   \<and> (\<exists>before after.
         fst (firstPass insertionSlice onePerLine exampleRegistry exampleConfig commentedDoc)
           = before
             @ [''// the import'', ''import '' @ [CHR 0x22] @ ''a.proto'' @ [CHR 0x22] @ '';'']
             @ after)"
proof -
  let ?s = "(syntaxAt 2 ''proto3'')\<lparr>Comment := Some \<lparr>Lines = [''// the syntax'']\<rparr>\<rparr>"
  let ?i = "(importAt 4 ''a.proto'')\<lparr>Comment := Some \<lparr>Lines = [''// the import'']\<rparr>\<rparr>"
  let ?p = "(packageAt 6 ''x.y'')\<lparr>Comment := Some \<lparr>Lines = [''// the package'']\<rparr>\<rparr>"
  note claim = leading_comment_spacing
                 [of commentedDoc ?s "\<lparr>Lines = [''// the syntax'']\<rparr>" insertionSlice
                     onePerLine exampleRegistry exampleConfig ?p
                     "\<lparr>Lines = [''// the package'']\<rparr>" ?i "\<lparr>Lines = [''// the import'']\<rparr>"]
  have s: "first (syntaxesOf commentedDoc) = Some ?s
           \<and> Comment ?s = Some \<lparr>Lines = [''// the syntax'']\<rparr>"
    by (simp add: commentedDoc_def syntaxesOf_def first_def)
  have i: "sort_Slice_contract insertionSlice \<and> ?i \<in> set (importsOf commentedDoc)
           \<and> Comment ?i = Some \<lparr>Lines = [''// the import'']\<rparr>"
    by (simp add: insertionSlice_contract commentedDoc_def importsOf_def)
  have "fst (firstPass insertionSlice onePerLine exampleRegistry exampleConfig commentedDoc)
        = headerLines commentedDoc @ Lines \<lparr>Lines = [''// the syntax'']\<rparr>
          @ ['''', syntaxLine ?s, '''']
          @ (importsSection insertionSlice (wktImportsOf exampleRegistry commentedDoc)
             @ importsSection insertionSlice (regularImportsOf exampleRegistry commentedDoc)
             @ packageSection (first (packagesOf commentedDoc))
             @ optionsSection onePerLine (plainOptionsOf commentedDoc)
                 (customOptionsOf commentedDoc))"
    using claim s by blast
  also have "\<dots> = [''// the syntax'', '''', ''syntax = '' @ [CHR 0x22] @ ''proto3'' @ [CHR 0x22] @ '';'', '''',
        ''// the import'', ''import '' @ [CHR 0x22] @ ''a.proto'' @ [CHR 0x22] @ '';'', '''',
        ''// the package'', ''package x.y;'', '''']"
    by code_simp
  finally have rendered:
    "fst (firstPass insertionSlice onePerLine exampleRegistry exampleConfig commentedDoc)
       = [''// the syntax'', '''', ''syntax = '' @ [CHR 0x22] @ ''proto3'' @ [CHR 0x22] @ '';'', '''',
          ''// the import'', ''import '' @ [CHR 0x22] @ ''a.proto'' @ [CHR 0x22] @ '';'', '''',
          ''// the package'', ''package x.y;'', '''']" .
  have "\<exists>before after.
         fst (firstPass insertionSlice onePerLine exampleRegistry exampleConfig commentedDoc)
           = before @ Lines \<lparr>Lines = [''// the import'']\<rparr> @ [importLine ?i] @ after"
    using claim i by blast
  then have "\<exists>before after.
         fst (firstPass insertionSlice onePerLine exampleRegistry exampleConfig commentedDoc)
           = before
             @ [''// the import'', ''import '' @ [CHR 0x22] @ ''a.proto'' @ [CHR 0x22] @ '';'']
             @ after"
    by (simp add: importLine_def importAt_def inlineText_def)
  with rendered show ?thesis by simp
qed

end
